theory Spec2Isabelle
  imports Complex_Main "HOL-Library.Multiset"
begin

section \<open>Data model of static/script.js\<close>

text \<open>
  The dashboard script keeps its state in module-level variables and mutates it from
  event handlers (WebSocket messages, button clicks, the continuation of a fetch).
  Each handler is modelled as a function from the state before to the state after.
  Times are milliseconds since the epoch (\<open>Date\<close> values), coordinates and powers are
  JavaScript numbers, idealised as reals. A handler reads the clock once: the time
  does not advance while it runs.

  The file src/static/script.js holds the script (lines 1 to 1640) followed by a second,
  older copy of it; the model follows the first. The handlers modelled here read the same
  in both, except \<open>updateDeviceList\<close>, which the older copy does not sort.
\<close>

type_synonym latlng = "real \<times> real"

text \<open>
  A device location arrives as \<open>{latitude, longitude}\<close> (the documented API shape) and is
  rewritten to \<open>{lat, lng}\<close> by \<open>updateMarkers\<close>; both shapes carry two numbers.
\<close>

datatype location = LatLng real real | LatitudeLongitude real real

text \<open>
  One element of \<open>data.devices\<close>. A field the JSON may omit is an option; \<open>last_seen\<close> is
  the parsed \<open>new Date(device.last_seen)\<close>, with \<open>None\<close> for a missing or unparsable
  timestamp (an Invalid Date, whose arithmetic gives NaN). \<open>whitelisted\<close> and \<open>isActive\<close>
  are only ever tested for truthiness, so an absent field is \<open>False\<close>; \<open>insideGeofence\<close>
  does not exist on a device until an evaluation assigns it, and its absence (\<open>undefined\<close>)
  is kept apart from \<open>false\<close> as \<open>None\<close>. Ids are strings, as the API documents them.
\<close>

record device =
  dev_id :: string
  dev_name :: "string option"
  dev_type :: "string option"
  frequency :: "real option"
  frequency_mhz :: "real option"
  dev_power :: "real option"
  last_seen :: "int option"
  location :: "location option"
  whitelisted :: bool
  isActive :: bool
  insideGeofence :: "bool option"

record marker =
  marker_latlng :: latlng
  marker_color :: string
  marker_opacity :: real

record circle =
  circle_center :: latlng
  circle_radius :: real

record station =
  latitude :: real
  longitude :: real

record message =
  devices :: "device list option"
  monitoring_station :: "station option"

text \<open>
  The global variables. \<open>map_obj\<close> is the Leaflet map (\<open>None\<close> while \<open>map\<close> is null,
  otherwise the centre of its view); \<open>deviceList\<close> is the content of the DOM list the
  operator sees; \<open>alerts\<close> collects the messages shown with \<open>alert\<close>. The two
  \<open>deviceStatus\<close> objects hold references to device objects; the script only reads
  their keys, and the model stores the device as it was when the key was written.

  \<open>deviceMarkers\<close> and the two \<open>deviceStatus\<close> objects are plain objects used as
  dictionaries, modelled by the finite map of their own properties. A plain object also
  inherits the properties of \<open>Object.prototype\<close>, which matters in two places.
  \<open>updateMarkerForDevice\<close> tests \<open>device.id in deviceMarkers\<close>, and \<open>in\<close> sees inherited
  properties: \<open>object_prototype_names\<close> lists them. And an assignment under the name
  \<open>__proto__\<close> replaces the prototype of the object instead of storing a key; the maps do
  not follow the script there, so what is stated about the ids of a snapshot as keys of
  \<open>deviceStatus\<close> is stated for ids other than \<open>__proto__\<close>.
\<close>

record state =
  currentDevices :: "device list"
  deviceMarkers :: "string \<rightharpoonup> marker"
  geofenceCircle :: "circle option"
  geofenceEnabled :: bool
  map_obj :: "latlng option"
  mapInitialized :: bool
  userMarker :: "latlng option"
  userLocation :: latlng
  usingGPS :: bool
  showWhitelistedOnly :: bool
  deviceStatus_active :: "string \<rightharpoonup> device"
  deviceStatus_inactive :: "string \<rightharpoonup> device"
  deviceList :: "device list"
  alerts :: "string list"

text \<open>The property names that every plain object inherits from \<open>Object.prototype\<close>.\<close>

definition object_prototype_names :: "string list" where
  "object_prototype_names =
     [''constructor'', ''__defineGetter__'', ''__defineSetter__'', ''hasOwnProperty'',
      ''__lookupGetter__'', ''__lookupSetter__'', ''isPrototypeOf'', ''propertyIsEnumerable'',
      ''toString'', ''valueOf'', ''__proto__'', ''toLocaleString'']"

definition initial_state :: state where
  "initial_state =
     \<lparr>currentDevices = [], deviceMarkers = Map.empty, geofenceCircle = None,
      geofenceEnabled = False, map_obj = None, mapInitialized = False, userMarker = None,
      userLocation = (37.7749, -122.4194), usingGPS = False, showWhitelistedOnly = False,
      deviceStatus_active = Map.empty, deviceStatus_inactive = Map.empty,
      deviceList = [], alerts = []\<rparr>"

definition coords :: "location \<Rightarrow> latlng" where
  "coords loc = (case loc of LatLng la lo \<Rightarrow> (la, lo) | LatitudeLongitude la lo \<Rightarrow> (la, lo))"

text \<open>JavaScript truthiness of an optional number: absent, 0 and NaN are falsy.\<close>

definition truthy :: "real option \<Rightarrow> bool" where
  "truthy v = (case v of None \<Rightarrow> False | Some x \<Rightarrow> x \<noteq> 0)"

section \<open>The device list: updateDeviceList\<close>

text \<open>\<open>(d.power || -100)\<close>: the default is taken for every falsy power.\<close>

definition power_or_default :: "device \<Rightarrow> real" where
  "power_or_default d = (if truthy (dev_power d) then the (dev_power d) else -100)"

text \<open>The comparator handed to \<open>filteredDevices.sort\<close>.\<close>

definition compare_devices :: "device \<Rightarrow> device \<Rightarrow> real" where
  "compare_devices a b =
     (if isActive a \<and> \<not> isActive b then -1
      else if \<not> isActive a \<and> isActive b then 1
      else power_or_default b - power_or_default a)"

text \<open>
  \<open>Array.prototype.sort\<close> with a comparator is a stable sort: an element stays in front
  of a later one unless the comparator puts it strictly behind. Insertion from the right
  gives that order.
\<close>

fun insert_sorted :: "('a \<Rightarrow> 'a \<Rightarrow> real) \<Rightarrow> 'a \<Rightarrow> 'a list \<Rightarrow> 'a list" where
  "insert_sorted cmp x [] = [x]"
| "insert_sorted cmp x (y # ys) =
     (if cmp x y \<le> 0 then x # y # ys else y # insert_sorted cmp x ys)"

fun array_sort :: "('a \<Rightarrow> 'a \<Rightarrow> real) \<Rightarrow> 'a list \<Rightarrow> 'a list" where
  "array_sort cmp [] = []"
| "array_sort cmp (x # xs) = insert_sorted cmp x (array_sort cmp xs)"

text \<open>
  \<open>updateDeviceList(currentDevices)\<close>, the last of the three declarations of that name
  (function declarations are hoisted, the last one is the one every call reaches). Every
  caller passes \<open>currentDevices\<close>. Without the whitelist filter \<open>filteredDevices\<close> is that
  very array, so the sort reorders \<open>currentDevices\<close> in place; with the filter it is a
  fresh array. The list element it draws into exists in index.html.
\<close>

definition updateDeviceList :: "state \<Rightarrow> state" where
  "updateDeviceList s =
     (let filteredDevices =
            (if showWhitelistedOnly s then filter whitelisted (currentDevices s)
             else currentDevices s);
          sorted_devices = array_sort compare_devices filteredDevices
      in s\<lparr>deviceList := sorted_devices,
           currentDevices :=
             (if showWhitelistedOnly s then currentDevices s else sorted_devices)\<rparr>)"

definition toggleWhitelistView :: "state \<Rightarrow> state" where
  "toggleWhitelistView s =
     updateDeviceList (s\<lparr>showWhitelistedOnly := \<not> showWhitelistedOnly s\<rparr>)"

section \<open>Map markers\<close>

text \<open>
  \<open>updateMarkerForDevice\<close>: the body runs in a try block, and whatever it throws is
  caught and logged there. A device without location is skipped. When the id is a key of
  \<open>deviceMarkers\<close>, its marker is moved and re-coloured. When the id is no key but the name
  of an inherited property, \<open>device.id in deviceMarkers\<close> still holds: the update branch
  calls \<open>setLatLng\<close> on the inherited value, which throws, and no marker is made. Any
  other id gets a new marker added to the map, which throws while \<open>map\<close> is null.
\<close>

definition marker_for :: "device \<Rightarrow> latlng \<Rightarrow> marker" where
  "marker_for d p =
     \<lparr>marker_latlng = p,
      marker_color =
        (if whitelisted d then ''green''
         else if insideGeofence d = Some True then ''red'' else ''blue''),
      marker_opacity = (if isActive d then 1 else 0.5)\<rparr>"

definition updateMarkerForDevice :: "device \<Rightarrow> state \<Rightarrow> state" where
  "updateMarkerForDevice d s =
     (case location d of
        None \<Rightarrow> s
      | Some loc \<Rightarrow>
          (if deviceMarkers s (dev_id d) \<noteq> None
           then s\<lparr>deviceMarkers := (deviceMarkers s)(dev_id d \<mapsto> marker_for d (coords loc))\<rparr>
           else if dev_id d \<in> set object_prototype_names then s
           else if map_obj s \<noteq> None
           then s\<lparr>deviceMarkers := (deviceMarkers s)(dev_id d \<mapsto> marker_for d (coords loc))\<rparr>
           else s))"

definition valid_coords :: "latlng \<Rightarrow> bool" where
  "valid_coords p =
     (\<not> (fst p < -90 \<or> fst p > 90 \<or> snd p < -180 \<or> snd p > 180))"

text \<open>
  The distance in metres between two points is computed by the Leaflet library
  (\<open>L.LatLng.distanceTo\<close>, \<open>map.distance\<close>), which is loaded from a CDN and is not part of
  the repository. The functions below take it as the parameter \<open>distanceTo\<close>.
\<close>

text \<open>The body of the \<open>forEach\<close> in \<open>updateMarkers\<close>, for one device.\<close>

definition updateMarkers_device ::
  "(latlng \<Rightarrow> latlng \<Rightarrow> real) \<Rightarrow> device \<Rightarrow> state \<Rightarrow> device \<times> state" where
  "updateMarkers_device distanceTo d s =
     (case location d of
        None \<Rightarrow> (d, s)
      | Some loc \<Rightarrow>
          (let p = coords loc;
               d1 = d\<lparr>location := Some (LatLng (fst p) (snd p))\<rparr>
           in if \<not> valid_coords p then (d1, s)
              else
                (let d2 =
                       (case geofenceCircle s of
                          None \<Rightarrow> d1
                        | Some c \<Rightarrow>
                            (if geofenceEnabled s
                             then d1\<lparr>insideGeofence :=
                                        Some (distanceTo p (circle_center c) \<le> circle_radius c)\<rparr>
                             else d1))
                 in (d2, updateMarkerForDevice d2 s))))"

fun updateMarkers_each ::
  "(latlng \<Rightarrow> latlng \<Rightarrow> real) \<Rightarrow> device list \<Rightarrow> state \<Rightarrow> device list \<times> state" where
  "updateMarkers_each distanceTo [] s = ([], s)"
| "updateMarkers_each distanceTo (d # ds) s =
     (case updateMarkers_device distanceTo d s of
        (d', s') \<Rightarrow>
          (case updateMarkers_each distanceTo ds s' of (ds', s'') \<Rightarrow> (d' # ds', s'')))"

text \<open>
  \<open>updateMarkers(currentDevices)\<close>: every call of the handlers below passes the array
  that \<open>currentDevices\<close> refers to, so the devices it mutates are those of the state.
  After the loop every marker whose id is not in the array is removed.
\<close>

definition updateMarkers :: "(latlng \<Rightarrow> latlng \<Rightarrow> real) \<Rightarrow> state \<Rightarrow> state" where
  "updateMarkers distanceTo s =
     (if map_obj s = None \<or> \<not> mapInitialized s then s
      else
        (case updateMarkers_each distanceTo (currentDevices s) s of
           (ds, s') \<Rightarrow>
             s'\<lparr>currentDevices := ds,
                deviceMarkers := deviceMarkers s' |` (dev_id ` set ds)\<rparr>))"

section \<open>The snapshot handler: ws.onmessage\<close>

text \<open>\<open>data.devices || []\<close>\<close>

definition devices_or_empty :: "message \<Rightarrow> device list" where
  "devices_or_empty data = (case devices data of None \<Rightarrow> [] | Some ds \<Rightarrow> ds)"

definition normalize_frequency :: "device \<Rightarrow> device" where
  "normalize_frequency d =
     (if \<not> truthy (frequency_mhz d) \<and> truthy (frequency d)
      then d\<lparr>frequency_mhz := frequency d\<rparr> else d)"

text \<open>\<open>now - lastSeen < ms\<close>; a comparison with NaN is false.\<close>

definition seen_within :: "int \<Rightarrow> int option \<Rightarrow> int \<Rightarrow> bool" where
  "seen_within now ls ms = (case ls of None \<Rightarrow> False | Some t \<Rightarrow> now - t < ms)"

text \<open>
  The loop over \<open>currentDevices\<close> that fills \<open>deviceStatus\<close> and \<open>activeDeviceIds\<close>; the
  accumulator is (active, inactive, activeDeviceIds). A value stored in \<open>inactive\<close> is a
  device object and so truthy: \<open>if (deviceStatus.inactive[deviceId]) delete ...\<close> removes the
  key whenever there is one. \<open>activeDeviceIds\<close> is a \<open>Set\<close>, which holds any string; the
  two objects store every id as a key except \<open>__proto__\<close> (see the note on the state),
  which the maps here store like any other.
\<close>

fun track_devices ::
  "int \<Rightarrow> device list \<Rightarrow>
   (string \<rightharpoonup> device) \<times> (string \<rightharpoonup> device) \<times> string set \<Rightarrow>
   (string \<rightharpoonup> device) \<times> (string \<rightharpoonup> device) \<times> string set" where
  "track_devices now [] acc = acc"
| "track_devices now (d # ds) (act, inact, ids) =
     (if seen_within now (last_seen d) 30000
      then track_devices now ds
             (act(dev_id d \<mapsto> d), inact(dev_id d := None), insert (dev_id d) ids)
      else track_devices now ds (act, inact(dev_id d \<mapsto> d), ids))"

text \<open>
  The station part of the handler. The result says whether \<open>map.setView\<close> was called.
  \<open>getDistance\<close> returns 0 without a map and \<open>map.distance\<close> otherwise; it is reached only
  when the map exists. When there is no map or marker yet and the map is not
  initialised, \<open>initializeMap\<close> is scheduled with \<open>setTimeout\<close>, which changes nothing
  before the handler returns.
\<close>

definition getDistance :: "(latlng \<Rightarrow> latlng \<Rightarrow> real) \<Rightarrow> state \<Rightarrow> latlng \<Rightarrow> latlng \<Rightarrow> real" where
  "getDistance distanceTo s point1 point2 = (if map_obj s = None then 0 else distanceTo point1 point2)"

definition station_update ::
  "(latlng \<Rightarrow> latlng \<Rightarrow> real) \<Rightarrow> station \<Rightarrow> state \<Rightarrow> bool \<times> state" where
  "station_update distanceTo st s =
     (let gpsLocation = (latitude st, longitude st);
          s1 = s\<lparr>userLocation := gpsLocation, usingGPS := True\<rparr>
      in if map_obj s1 \<noteq> None \<and> userMarker s1 \<noteq> None
         then
           (let s2 = s1\<lparr>userMarker := Some (userLocation s1)\<rparr>
            in if \<not> mapInitialized s2 \<or>
                  getDistance distanceTo s2 (the (userMarker s2)) (userLocation s2) > 100
               then (True, s2\<lparr>map_obj := Some (userLocation s2)\<rparr>)
               else (False, s2))
         else (False, s1))"

text \<open>
  The first half of the handler at wall-clock time \<open>now\<close>: \<open>currentDevices\<close> is replaced by
  the devices of the message, every active entry of \<open>deviceStatus\<close> is moved to inactive,
  the devices are tracked, and each gets its \<open>isActive\<close> flag from \<open>activeDeviceIds\<close>.
\<close>

definition track_snapshot :: "int \<Rightarrow> message \<Rightarrow> state \<Rightarrow> state" where
  "track_snapshot now data s =
     (let devs = map normalize_frequency (devices_or_empty data)
      in case track_devices now devs
                (Map.empty, deviceStatus_inactive s ++ deviceStatus_active s, {}) of
           (act, inact, activeDeviceIds) \<Rightarrow>
             s\<lparr>currentDevices := map (\<lambda>d. d\<lparr>isActive := dev_id d \<in> activeDeviceIds\<rparr>) devs,
               deviceStatus_active := act,
               deviceStatus_inactive := inact\<rparr>)"

text \<open>
  The whole handler. The chart and the two header counters (\<open>updateSpectrum\<close>,
  \<open>updateWhitelistCount\<close>, \<open>updateDeviceStatusCount\<close>) only render and are left out.
  \<open>data.devices\<close> and \<open>currentDevices\<close> are the same array, so the last call of
  \<open>updateMarkers\<close> works on the devices of the state.
\<close>

definition onmessage ::
  "(latlng \<Rightarrow> latlng \<Rightarrow> real) \<Rightarrow> int \<Rightarrow> message \<Rightarrow> state \<Rightarrow> state" where
  "onmessage distanceTo now data s =
     (let s1 = updateDeviceList (track_snapshot now data s);
          s2 = (if mapInitialized s1 \<and> map_obj s1 \<noteq> None
                then updateMarkers distanceTo s1 else s1);
          s3 = (case monitoring_station data of
                  None \<Rightarrow> s2
                | Some st \<Rightarrow> snd (station_update distanceTo st s2))
      in if currentDevices s3 \<noteq> [] then updateMarkers distanceTo s3 else s3)"

section \<open>The geofence\<close>

text \<open>
  The body of the \<open>forEach\<close> in \<open>checkDevicesAgainstGeofence\<close>: a device with a location
  gets its flag from the distance to the centre, and its marker is refreshed.
\<close>

definition checkGeofence_device ::
  "(latlng \<Rightarrow> latlng \<Rightarrow> real) \<Rightarrow> circle \<Rightarrow> device \<Rightarrow> state \<Rightarrow> device \<times> state" where
  "checkGeofence_device distanceTo c d s =
     (case location d of
        None \<Rightarrow> (d, s)
      | Some loc \<Rightarrow>
          (let d' = d\<lparr>insideGeofence :=
                       Some (distanceTo (coords loc) (circle_center c) \<le> circle_radius c)\<rparr>
           in (d', updateMarkerForDevice d' s)))"

fun checkGeofence_each ::
  "(latlng \<Rightarrow> latlng \<Rightarrow> real) \<Rightarrow> circle \<Rightarrow> device list \<Rightarrow> state \<Rightarrow> device list \<times> state" where
  "checkGeofence_each distanceTo c [] s = ([], s)"
| "checkGeofence_each distanceTo c (d # ds) s =
     (case checkGeofence_device distanceTo c d s of
        (d', s') \<Rightarrow>
          (case checkGeofence_each distanceTo c ds s' of (ds', s'') \<Rightarrow> (d' # ds', s'')))"

text \<open>
  \<open>checkDevicesAgainstGeofence\<close>: it returns at once when there is no circle or the
  geofence is disabled, and otherwise sets the flag of every device of \<open>currentDevices\<close>
  that has a location and redraws the list.
\<close>

definition checkDevicesAgainstGeofence :: "(latlng \<Rightarrow> latlng \<Rightarrow> real) \<Rightarrow> state \<Rightarrow> state" where
  "checkDevicesAgainstGeofence distanceTo s =
     (case geofenceCircle s of
        None \<Rightarrow> s
      | Some c \<Rightarrow>
          (if \<not> geofenceEnabled s then s
           else
             (case checkGeofence_each distanceTo c (currentDevices s) s of
                (ds, s') \<Rightarrow> updateDeviceList (s'\<lparr>currentDevices := ds\<rparr>))))"

text \<open>
  \<open>setGeofenceAtPosition\<close> is the click handler of the map: the new circle of radius 500
  is added to the map before it is assigned, so without a map nothing is assigned.
\<close>

definition setGeofenceAtPosition :: "(latlng \<Rightarrow> latlng \<Rightarrow> real) \<Rightarrow> latlng \<Rightarrow> state \<Rightarrow> state" where
  "setGeofenceAtPosition distanceTo p s =
     (if map_obj s = None then s
      else checkDevicesAgainstGeofence distanceTo
             (s\<lparr>geofenceCircle := Some \<lparr>circle_center = p, circle_radius = 500\<rparr>,
                geofenceEnabled := True\<rparr>))"

definition toggleGeofence :: "(latlng \<Rightarrow> latlng \<Rightarrow> real) \<Rightarrow> state \<Rightarrow> state" where
  "toggleGeofence distanceTo s =
     (if geofenceCircle s = None then s
      else checkDevicesAgainstGeofence distanceTo (s\<lparr>geofenceEnabled := \<not> geofenceEnabled s\<rparr>))"

text \<open>
  The callback that \<open>initializeMap()\<close> schedules when it is called without devices, as
  the page does once it is loaded: the map and the station marker are created at
  \<open>userLocation\<close>.
\<close>

definition initializeMap_callback :: "state \<Rightarrow> state" where
  "initializeMap_callback s =
     s\<lparr>map_obj := Some (userLocation s), userMarker := Some (userLocation s),
       mapInitialized := True\<rparr>"

section \<open>processDeviceData\<close>

datatype js_error = TypeError

text \<open>
  The arguments \<open>device.location.latitude || device.location.lat\<close> and
  \<open>device.location.longitude || device.location.lng\<close> handed to \<open>L.latLng\<close>: a coordinate
  0 of the \<open>{latitude, longitude}\<close> shape is falsy and falls through to the missing
  \<open>lat\<close> or \<open>lng\<close>, and \<open>L.latLng\<close> then yields no point.
\<close>

definition latLng_args :: "location \<Rightarrow> latlng option" where
  "latLng_args loc =
     (case loc of
        LatLng la lo \<Rightarrow> Some (la, lo)
      | LatitudeLongitude la lo \<Rightarrow> (if la = 0 \<or> lo = 0 then None else Some (la, lo)))"

text \<open>
  One round of the \<open>forEach\<close> of \<open>processDeviceData\<close>. Reading a property of the missing
  \<open>device.location\<close>, or calling \<open>distanceTo\<close> on no point, throws a TypeError that
  nothing catches; what was assigned before stays assigned.
\<close>

definition processDevice ::
  "(latlng \<Rightarrow> latlng \<Rightarrow> real) \<Rightarrow> int \<Rightarrow> device \<Rightarrow> state \<Rightarrow> js_error option \<times> device \<times> state" where
  "processDevice distanceTo now d s =
     (let d1 = d\<lparr>isActive :=
                   (case last_seen d of None \<Rightarrow> False | Some t \<Rightarrow> (now - t) div 1000 \<le> 30)\<rparr>;
          s1 = (if isActive d1
                then s\<lparr>deviceStatus_active := (deviceStatus_active s)(dev_id d1 \<mapsto> d1),
                       deviceStatus_inactive := (deviceStatus_inactive s)(dev_id d1 := None)\<rparr>
                else s\<lparr>deviceStatus_inactive := (deviceStatus_inactive s)(dev_id d1 \<mapsto> d1),
                       deviceStatus_active := (deviceStatus_active s)(dev_id d1 := None)\<rparr>)
      in case geofenceCircle s1 of
           None \<Rightarrow> (None, d1, s1)
         | Some c \<Rightarrow>
             (if map_obj s1 = None then (None, d1, s1)
              else
                (case location d1 of
                   None \<Rightarrow> (Some TypeError, d1, s1)
                 | Some loc \<Rightarrow>
                     (case latLng_args loc of
                        None \<Rightarrow> (Some TypeError, d1, s1)
                      | Some p \<Rightarrow>
                          (let d2 = d1\<lparr>insideGeofence :=
                                         Some (distanceTo p (circle_center c) \<le> circle_radius c)\<rparr>
                           in (None, d2, updateMarkerForDevice d2 s1))))))"

fun processDevice_each ::
  "(latlng \<Rightarrow> latlng \<Rightarrow> real) \<Rightarrow> int \<Rightarrow> device list \<Rightarrow> state \<Rightarrow>
   js_error option \<times> device list \<times> state" where
  "processDevice_each distanceTo now [] s = (None, [], s)"
| "processDevice_each distanceTo now (d # ds) s =
     (case processDevice distanceTo now d s of
        (Some e, d', s') \<Rightarrow> (Some e, [d'], s')
      | (None, d', s') \<Rightarrow>
          (case processDevice_each distanceTo now ds s' of
             (err, ds', s'') \<Rightarrow> (err, d' # ds', s'')))"

text \<open>
  \<open>processDeviceData(data)\<close> at time \<open>now\<close>: the error thrown, if any, and the state it
  leaves. After an error \<open>currentDevices\<close> is not replaced and nothing is redrawn.
\<close>

definition processDeviceData ::
  "(latlng \<Rightarrow> latlng \<Rightarrow> real) \<Rightarrow> int \<Rightarrow> message \<Rightarrow> state \<Rightarrow> js_error option \<times> state" where
  "processDeviceData distanceTo now data s =
     (case devices data of
        None \<Rightarrow> (None, s)
      | Some ds \<Rightarrow>
          (case processDevice_each distanceTo now (map normalize_frequency ds) s of
             (Some e, ds', s') \<Rightarrow> (Some e, s')
           | (None, ds', s') \<Rightarrow>
               (let s1 = updateDeviceList (s'\<lparr>currentDevices := ds'\<rparr>)
                in (None, if mapInitialized s1 then updateMarkers distanceTo s1 else s1))))"

section \<open>The whitelist buttons\<close>

text \<open>
  What the whitelist endpoint answers: the fetch is rejected (with a message), or a
  response arrives with a status and a body that either fails to parse as JSON (with the
  parser's message) or is a JSON object, of which only the \<open>detail\<close> field is read.
\<close>

datatype body = NotJson string | Json "string option"

datatype response = NetworkError string | Response int body

text \<open>\<open>response.ok\<close>\<close>

definition response_ok :: "int \<Rightarrow> bool" where
  "response_ok status = (200 \<le> status \<and> status \<le> 299)"

text \<open>The fields of the device dialog that the two handlers read.\<close>

record whitelist_form =
  deviceId :: string
  deviceName :: string
  deviceType :: string

text \<open>\<open>currentDevices[currentDevices.findIndex(pred)]\<close> updated, when the index is not -1.\<close>

fun update_first :: "('a \<Rightarrow> bool) \<Rightarrow> ('a \<Rightarrow> 'a) \<Rightarrow> 'a list \<Rightarrow> 'a list" where
  "update_first pred f [] = []"
| "update_first pred f (x # xs) = (if pred x then f x # xs else x # update_first pred f xs)"

definition show_alert :: "string \<Rightarrow> state \<Rightarrow> state" where
  "show_alert msg s = s\<lparr>alerts := alerts s @ [msg]\<rparr>"

text \<open>\<open>errorData.detail || fallback\<close>, or \<open>Unknown error\<close> when the body does not parse.\<close>

definition error_message :: "body \<Rightarrow> string \<Rightarrow> string" where
  "error_message b fallback =
     (case b of
        NotJson _ \<Rightarrow> ''Unknown error''
      | Json None \<Rightarrow> fallback
      | Json (Some detail) \<Rightarrow> (if detail = [] then fallback else detail))"

text \<open>
  \<open>addToWhitelist\<close> up to its \<open>await fetch\<close>: \<open>Inl\<close> when the handler returns before any
  request is made, \<open>Inr\<close> when the POST is sent. The elements of the dialog exist in
  index.html.
\<close>

definition addToWhitelist_request :: "whitelist_form \<Rightarrow> state \<Rightarrow> state + unit" where
  "addToWhitelist_request form s =
     (if deviceId form = [] then Inl s
      else if find (\<lambda>d. dev_id d = deviceId form) (currentDevices s) = None
      then Inl (show_alert ''Error: Device not found in the current devices list'' s)
      else Inr ())"

text \<open>
  The rest of \<open>addToWhitelist\<close>, run on the state the script is in when the response
  has arrived.
\<close>

definition addToWhitelist_response ::
  "(latlng \<Rightarrow> latlng \<Rightarrow> real) \<Rightarrow> whitelist_form \<Rightarrow> response \<Rightarrow> state \<Rightarrow> state" where
  "addToWhitelist_response distanceTo form resp s =
     (case resp of
        NetworkError msg \<Rightarrow> show_alert (''Failed to add device to whitelist: '' @ msg) s
      | Response status b \<Rightarrow>
          (if response_ok status
           then
             (case b of
                NotJson msg \<Rightarrow> show_alert (''Failed to add device to whitelist: '' @ msg) s
              | Json _ \<Rightarrow>
                  (let s1 = updateDeviceList
                              (s\<lparr>currentDevices :=
                                   update_first (\<lambda>d. dev_id d = deviceId form)
                                     (\<lambda>d. d\<lparr>whitelisted := True,
                                            dev_name := Some (deviceName form),
                                            dev_type := Some (deviceType form)\<rparr>)
                                     (currentDevices s)\<rparr>)
                   in if mapInitialized s1 \<and> map_obj s1 \<noteq> None
                      then updateMarkers distanceTo s1 else s1))
           else show_alert
                  (''Failed to add device to whitelist: '' @
                   error_message b ''Failed to add device to whitelist'') s))"

definition addToWhitelist ::
  "(latlng \<Rightarrow> latlng \<Rightarrow> real) \<Rightarrow> whitelist_form \<Rightarrow> response \<Rightarrow> state \<Rightarrow> state" where
  "addToWhitelist distanceTo form resp s =
     (case addToWhitelist_request form s of
        Inl s' \<Rightarrow> s'
      | Inr _ \<Rightarrow> addToWhitelist_response distanceTo form resp s)"

text \<open>
  \<open>removeFromWhitelist\<close>: the DELETE is sent for any non-empty id, and the response is
  handled the same way; success ends with an alert of its own.
\<close>

definition removeFromWhitelist ::
  "(latlng \<Rightarrow> latlng \<Rightarrow> real) \<Rightarrow> whitelist_form \<Rightarrow> response \<Rightarrow> state \<Rightarrow> state" where
  "removeFromWhitelist distanceTo form resp s =
     (if deviceId form = [] then s
      else
        (case resp of
           NetworkError msg \<Rightarrow> show_alert (''Failed to remove device from whitelist: '' @ msg) s
         | Response status b \<Rightarrow>
             (if response_ok status
              then
                (case b of
                   NotJson msg \<Rightarrow>
                     show_alert (''Failed to remove device from whitelist: '' @ msg) s
                 | Json _ \<Rightarrow>
                     (let s1 = updateDeviceList
                                 (s\<lparr>currentDevices :=
                                      update_first (\<lambda>d. dev_id d = deviceId form)
                                        (\<lambda>d. d\<lparr>whitelisted := False\<rparr>) (currentDevices s)\<rparr>);
                          s2 = (if mapInitialized s1 \<and> map_obj s1 \<noteq> None
                                then updateMarkers distanceTo s1 else s1)
                      in show_alert ''Device removed from whitelist successfully'' s2))
              else show_alert
                     (''Failed to remove device from whitelist: '' @
                      error_message b ''Failed to remove device from whitelist'') s)))"

text \<open>
  The error response that api_documentation.md gives as its example, for a device that
  is not in the whitelist: status 404 and a \<open>detail\<close> saying so.
\<close>

definition not_in_whitelist_response :: "string \<Rightarrow> response" where
  "not_in_whitelist_response i =
     Response 404 (Json (Some (''Device '' @ i @ '' not found in whitelist'')))"

section \<open>The distance on the sphere\<close>

text \<open>
  Modelled from the spec: the great-circle distance of its section 4.3, which the script
  obtains from Leaflet (\<open>L.LatLng.distanceTo\<close> and \<open>map.distance\<close>); the library's code is
  not in the repository. Leaflet 1.7.1 computes it with the haversine formula on a sphere
  of radius 6371000 metres. The numbers are reals here, not IEEE doubles.
\<close>

definition atan2 :: "real \<Rightarrow> real \<Rightarrow> real" where
  "atan2 y x =
     (if x > 0 then arctan (y / x)
      else if x < 0 then (if y \<ge> 0 then arctan (y / x) + pi else arctan (y / x) - pi)
      else if y > 0 then pi / 2
      else if y < 0 then - (pi / 2)
      else 0)"

definition earth_distance :: "latlng \<Rightarrow> latlng \<Rightarrow> real" where
  "earth_distance p q =
     (let rad = pi / 180;
          lat1 = fst p * rad;
          lat2 = fst q * rad;
          sinDLat = sin ((fst q - fst p) * rad / 2);
          sinDLon = sin ((snd q - snd p) * rad / 2);
          a = sinDLat * sinDLat + cos lat1 * cos lat2 * sinDLon * sinDLon;
          c = 2 * atan2 (sqrt a) (sqrt (1 - a))
      in 6371000 * c)"

section \<open>Auxiliary notions for the proofs\<close>

text \<open>
  The ids of the devices of a snapshot that the handler finds seen within the last 30
  seconds, and of those it does not.
\<close>

definition active_ids :: "int \<Rightarrow> device list \<Rightarrow> string set" where
  "active_ids now ds = dev_id ` {d \<in> set ds. seen_within now (last_seen d) 30000}"

definition stale_ids :: "int \<Rightarrow> device list \<Rightarrow> string set" where
  "stale_ids now ds = dev_id ` {d \<in> set ds. \<not> seen_within now (last_seen d) 30000}"

text \<open>What \<open>checkDevicesAgainstGeofence\<close> does to one device, leaving the marker aside.\<close>

definition geofence_stamp :: "(latlng \<Rightarrow> latlng \<Rightarrow> real) \<Rightarrow> circle \<Rightarrow> device \<Rightarrow> device" where
  "geofence_stamp D c d =
     (case location d of
        None \<Rightarrow> d
      | Some loc \<Rightarrow> d\<lparr>insideGeofence := Some (D (coords loc) (circle_center c) \<le> circle_radius c)\<rparr>)"

text \<open>The order the comparator induces: \<open>a\<close> may stand before \<open>b\<close>.\<close>

definition sorts_before :: "device \<Rightarrow> device \<Rightarrow> bool" where
  "sorts_before a b =
     ((isActive a \<and> \<not> isActive b) \<or>
      (isActive a = isActive b \<and> power_or_default b \<le> power_or_default a))"

text \<open>
  The haversine term for a point (t, t) seen from the origin, and the angle that a
  distance of 500 metres subtends at the centre of the sphere, halved: 500 / (2 * 6371000).
\<close>

definition hav :: "real \<Rightarrow> real" where
  "hav t = (sin (t * pi / 360))\<^sup>2 * (1 + cos (t * pi / 180))"

definition w500 :: real where
  "w500 = 1 / 25484"

text \<open>The station part of the handler run over a sequence of fixes, one message each.\<close>

fun station_updates ::
  "(latlng \<Rightarrow> latlng \<Rightarrow> real) \<Rightarrow> station list \<Rightarrow> state \<Rightarrow> bool list \<times> state" where
  "station_updates D [] s = ([], s)"
| "station_updates D (st # sts) s =
     (case station_update D st s of
        (moved, s') \<Rightarrow> (case station_updates D sts s' of (ms, s'') \<Rightarrow> (moved # ms, s'')))"

section \<open>Sample data\<close>

text \<open>
  Devices, messages and states for the concrete instances below. \<open>flat_distance\<close> is a
  simple computable stand-in for the distance (111320 metres per degree, taxicab).
\<close>

definition sample_device :: "string \<Rightarrow> int option \<Rightarrow> location option \<Rightarrow> real option \<Rightarrow> device" where
  "sample_device i t loc p =
     \<lparr>dev_id = i, dev_name = None, dev_type = Some ''GSM'', frequency = Some 915.23,
      frequency_mhz = None, dev_power = p, last_seen = t, location = loc,
      whitelisted = False, isActive = False, insideGeofence = None\<rparr>"

definition snapshot :: "device list \<Rightarrow> message" where
  "snapshot ds = \<lparr>devices = Some ds, monitoring_station = None\<rparr>"

definition flat_distance :: "latlng \<Rightarrow> latlng \<Rightarrow> real" where
  "flat_distance p q = 111320 * (\<bar>fst p - fst q\<bar> + \<bar>snd p - snd q\<bar>)"

definition dev_a :: device where
  "dev_a = sample_device ''a'' (Some 20000) None (Some (-40))"

definition dev_b :: device where
  "dev_b = sample_device ''b'' (Some 5000) None (Some (-70))"

definition dev_located :: device where
  "dev_located = sample_device ''c'' (Some 500) (Some (LatitudeLongitude 37.78 (-122.41))) (Some (-55))"

text \<open>The device \<open>c\<close> as a later snapshot might send it, whitelisted and without location.\<close>

definition dev_c :: device where
  "dev_c = (sample_device ''c'' (Some 1500) None (Some (-55)))\<lparr>whitelisted := True\<rparr>"

definition dev_near :: device where
  "dev_near = sample_device ''near'' (Some 900) (Some (LatitudeLongitude 0.001 0.001)) (Some (-40))"

definition dev_far :: device where
  "dev_far = sample_device ''far'' (Some 900) (Some (LatitudeLongitude 0.01 0.01)) (Some (-70))"

definition dev_zero :: device where
  "dev_zero = sample_device ''zero'' (Some 900) None (Some 0)"

definition dev_weak :: device where
  "dev_weak = sample_device ''weak'' (Some 900) None (Some (-50))"

text \<open>The state once the page has loaded and the map has been created.\<close>

definition map_ready_state :: state where
  "map_ready_state = initializeMap_callback initial_state"

text \<open>After a first snapshot: without a map, with a map, and with two located devices.\<close>

definition ab_state :: state where
  "ab_state = onmessage flat_distance 40000 (snapshot [dev_a, dev_b]) initial_state"

definition one_device_state :: state where
  "one_device_state = onmessage flat_distance 1000 (snapshot [dev_located]) map_ready_state"

definition two_device_state :: state where
  "two_device_state = onmessage earth_distance 1000 (snapshot [dev_near, dev_far]) map_ready_state"

text \<open>After a click on the map at (0, 0) has set the geofence.\<close>

definition fenced_state :: state where
  "fenced_state = setGeofenceAtPosition earth_distance (0, 0) two_device_state"

definition fix_sequence :: "station list" where
  "fix_sequence =
     [\<lparr>latitude = 0, longitude = 0\<rparr>, \<lparr>latitude = 0, longitude = 0.0001\<rparr>,
      \<lparr>latitude = 0, longitude = 0.01\<rparr>]"

definition sample_form :: whitelist_form where
  "sample_form = \<lparr>deviceId = ''a'', deviceName = ''Gate phone'', deviceType = ''LTE''\<rparr>"

definition located_form :: whitelist_form where
  "located_form = \<lparr>deviceId = ''c'', deviceName = ''Gate phone'', deviceType = ''LTE''\<rparr>"

definition absent_form :: whitelist_form where
  "absent_form = \<lparr>deviceId = ''5213ec08'', deviceName = ''Unknown Device'', deviceType = ''GSM''\<rparr>"

section \<open>Frame and projection lemmas\<close>

lemma mset_insert_sorted: "mset (insert_sorted cmp x xs) = add_mset x (mset xs)"
  by (induction xs) auto

lemma mset_array_sort: "mset (array_sort cmp xs) = mset xs"
  by (induction xs) (auto simp: mset_insert_sorted)

lemma set_array_sort: "set (array_sort cmp xs) = set xs"
  by (rule mset_eq_setD) (rule mset_array_sort)

lemma updateDeviceList_mset:
  "mset (currentDevices (updateDeviceList s)) = mset (currentDevices s)"
  by (simp add: updateDeviceList_def Let_def mset_array_sort)

lemma updateDeviceList_erase:
  "(updateDeviceList s)\<lparr>currentDevices := c, deviceList := l\<rparr> = s\<lparr>currentDevices := c, deviceList := l\<rparr>"
  by (simp add: updateDeviceList_def Let_def)

lemma updateMarkerForDevice_erase:
  "(updateMarkerForDevice d s)\<lparr>deviceMarkers := m\<rparr> = s\<lparr>deviceMarkers := m\<rparr>"
  by (simp add: updateMarkerForDevice_def split: option.splits)

lemma updateMarkers_device_erase:
  "(snd (updateMarkers_device D d s))\<lparr>deviceMarkers := m\<rparr> = s\<lparr>deviceMarkers := m\<rparr>"
  by (simp add: updateMarkers_device_def Let_def updateMarkerForDevice_erase split: option.splits)

lemma updateMarkers_each_erase:
  "(snd (updateMarkers_each D ds s))\<lparr>deviceMarkers := m\<rparr> = s\<lparr>deviceMarkers := m\<rparr>"
proof (induction ds arbitrary: s)
  case Nil
  show ?case by simp
next
  case (Cons d ds)
  obtain d' s' where 1: "updateMarkers_device D d s = (d', s')" by (cases "updateMarkers_device D d s")
  obtain ds' s'' where 2: "updateMarkers_each D ds s' = (ds', s'')" by (cases "updateMarkers_each D ds s'")
  have "s''\<lparr>deviceMarkers := m\<rparr> = s'\<lparr>deviceMarkers := m\<rparr>" using Cons.IH[of s'] 2 by simp
  also have "\<dots> = s\<lparr>deviceMarkers := m\<rparr>" using updateMarkers_device_erase[where s=s and d=d and D=D and m=m] 1 by simp
  finally show ?case using 1 2 by simp
qed

lemma updateMarkers_erase:
  "(updateMarkers D s)\<lparr>currentDevices := c, deviceMarkers := m\<rparr> = s\<lparr>currentDevices := c, deviceMarkers := m\<rparr>"
proof (cases "map_obj s = None \<or> \<not> mapInitialized s")
  case True then show ?thesis by (simp add: updateMarkers_def)
next
  case False
  obtain ds s' where 1: "updateMarkers_each D (currentDevices s) s = (ds, s')"
    by (cases "updateMarkers_each D (currentDevices s) s")
  have "s'\<lparr>deviceMarkers := m\<rparr> = s\<lparr>deviceMarkers := m\<rparr>"
    using updateMarkers_each_erase[where s=s and ds="currentDevices s" and D=D and m=m] 1 by simp
  then have "s'\<lparr>currentDevices := c, deviceMarkers := m\<rparr> = s\<lparr>currentDevices := c, deviceMarkers := m\<rparr>"
    by (cases s, cases s') simp
  with False 1 show ?thesis by (simp add: updateMarkers_def)
qed

lemma updateMarkers_device_proj:
  assumes "\<And>d x. f (location_update x d) = f d" "\<And>d x. f (insideGeofence_update x d) = f d"
  shows "f (fst (updateMarkers_device D d s)) = f d"
  using assms by (auto simp: updateMarkers_device_def Let_def split: option.splits)

lemma updateMarkers_each_proj:
  assumes "\<And>d x. f (location_update x d) = f d" "\<And>d x. f (insideGeofence_update x d) = f d"
  shows "map f (fst (updateMarkers_each D ds s)) = map f ds"
proof (induction ds arbitrary: s)
  case Nil show ?case by simp
next
  case (Cons d ds)
  obtain d' s' where 1: "updateMarkers_device D d s = (d', s')" by (cases "updateMarkers_device D d s")
  obtain ds' s'' where 2: "updateMarkers_each D ds s' = (ds', s'')" by (cases "updateMarkers_each D ds s'")
  have "f d' = f d" using updateMarkers_device_proj[of f D d s, OF assms] 1 by simp
  moreover have "map f ds' = map f ds" using Cons.IH[of s'] 2 by simp
  ultimately show ?case using 1 2 by simp
qed

lemma updateMarkers_proj:
  assumes "\<And>d x. f (location_update x d) = f d" "\<And>d x. f (insideGeofence_update x d) = f d"
  shows "map f (currentDevices (updateMarkers D s)) = map f (currentDevices s)"
proof (cases "map_obj s = None \<or> \<not> mapInitialized s")
  case True then show ?thesis by (simp add: updateMarkers_def)
next
  case False
  obtain ds s' where 1: "updateMarkers_each D (currentDevices s) s = (ds, s')"
    by (cases "updateMarkers_each D (currentDevices s) s")
  have "map f ds = map f (currentDevices s)"
    using updateMarkers_each_proj[of f D "currentDevices s" s, OF assms] 1 by simp
  with False 1 show ?thesis by (simp add: updateMarkers_def)
qed

lemma station_update_erase:
  "(snd (station_update D st s))\<lparr>map_obj := a, userMarker := b, userLocation := c, usingGPS := d\<rparr>
     = s\<lparr>map_obj := a, userMarker := b, userLocation := c, usingGPS := d\<rparr>"
  by (simp add: station_update_def Let_def)

lemma updateMarkers_other:
  assumes "\<And>x c m. f (x\<lparr>currentDevices := c, deviceMarkers := m\<rparr>) = f x"
  shows "f (updateMarkers D s) = f s"
proof -
  have "f (updateMarkers D s) = f ((updateMarkers D s)\<lparr>currentDevices := [], deviceMarkers := Map.empty\<rparr>)"
    by (simp only: assms)
  also have "\<dots> = f (s\<lparr>currentDevices := [], deviceMarkers := Map.empty\<rparr>)"
    by (simp only: updateMarkers_erase)
  also have "\<dots> = f s" by (simp only: assms)
  finally show ?thesis .
qed

lemma station_update_other:
  assumes "\<And>x a b c d. f (x\<lparr>map_obj := a, userMarker := b, userLocation := c, usingGPS := d\<rparr>) = f x"
  shows "f (snd (station_update D st s)) = f s"
proof -
  have "f (snd (station_update D st s)) =
        f ((snd (station_update D st s))\<lparr>map_obj := None, userMarker := None,
             userLocation := (0, 0), usingGPS := False\<rparr>)"
    by (simp only: assms)
  also have "\<dots> = f (s\<lparr>map_obj := None, userMarker := None, userLocation := (0, 0),
                          usingGPS := False\<rparr>)"
    by (simp only: station_update_erase)
  also have "\<dots> = f s" by (simp only: assms)
  finally show ?thesis .
qed

lemma updateDeviceList_other:
  assumes "\<And>x c l. f (x\<lparr>currentDevices := c, deviceList := l\<rparr>) = f x"
  shows "f (updateDeviceList s) = f s"
proof -
  have "f (updateDeviceList s) = f ((updateDeviceList s)\<lparr>currentDevices := [], deviceList := []\<rparr>)"
    by (simp only: assms)
  also have "\<dots> = f (s\<lparr>currentDevices := [], deviceList := []\<rparr>)"
    by (simp only: updateDeviceList_erase)
  also have "\<dots> = f s" by (simp only: assms)
  finally show ?thesis .
qed

lemma updateMarkers_status [simp]:
  "deviceStatus_active (updateMarkers D s) = deviceStatus_active s"
  "deviceStatus_inactive (updateMarkers D s) = deviceStatus_inactive s"
  by (rule updateMarkers_other, simp)+

lemma station_update_status [simp]:
  "deviceStatus_active (snd (station_update D st s)) = deviceStatus_active s"
  "deviceStatus_inactive (snd (station_update D st s)) = deviceStatus_inactive s"
  "currentDevices (snd (station_update D st s)) = currentDevices s"
  by (rule station_update_other, simp)+

lemma updateDeviceList_status [simp]:
  "deviceStatus_active (updateDeviceList s) = deviceStatus_active s"
  "deviceStatus_inactive (updateDeviceList s) = deviceStatus_inactive s"
  by (rule updateDeviceList_other, simp)+

lemma onmessage_status:
  "deviceStatus_active (onmessage D now data s) = deviceStatus_active (track_snapshot now data s)"
  "deviceStatus_inactive (onmessage D now data s) = deviceStatus_inactive (track_snapshot now data s)"
  by (simp_all add: onmessage_def Let_def split: option.splits)

lemma onmessage_devices:
  assumes "\<And>d x. f (location_update x d) = f d" "\<And>d x. f (insideGeofence_update x d) = f d"
  shows "mset (map f (currentDevices (onmessage D now data s))) =
         mset (map f (currentDevices (track_snapshot now data s)))"
proof -
  define s1 where "s1 = updateDeviceList (track_snapshot now data s)"
  define s2 where "s2 = (if mapInitialized s1 \<and> map_obj s1 \<noteq> None then updateMarkers D s1 else s1)"
  define s3 where "s3 = (case monitoring_station data of None \<Rightarrow> s2
                          | Some st \<Rightarrow> snd (station_update D st s2))"
  define s4 where "s4 = (if currentDevices s3 \<noteq> [] then updateMarkers D s3 else s3)"
  have um: "\<And>x. mset (map f (currentDevices (updateMarkers D x))) = mset (map f (currentDevices x))"
    using updateMarkers_proj[of f, OF assms] by simp
  have "mset (currentDevices s1) = mset (currentDevices (track_snapshot now data s))"
    unfolding s1_def by (simp only: updateDeviceList_mset)
  then have 1: "mset (map f (currentDevices s1)) = mset (map f (currentDevices (track_snapshot now data s)))"
    by simp
  have 2: "mset (map f (currentDevices s2)) = mset (map f (currentDevices s1))"
    unfolding s2_def by (simp only: um split: if_splits) simp
  have 3: "currentDevices s3 = currentDevices s2"
    unfolding s3_def by (simp split: option.splits)
  have 4: "mset (map f (currentDevices s4)) = mset (map f (currentDevices s3))"
    unfolding s4_def by (simp only: um split: if_splits) simp
  have "onmessage D now data s = s4"
    unfolding onmessage_def Let_def s4_def s3_def s2_def s1_def by (rule refl)
  with 1 2 3 4 show ?thesis by simp
qed

lemma active_ids_Cons:
  "active_ids now (d # ds) =
     (if seen_within now (last_seen d) 30000 then insert (dev_id d) (active_ids now ds)
      else active_ids now ds)"
  by (auto simp: active_ids_def)

lemma stale_ids_Cons:
  "stale_ids now (d # ds) =
     (if seen_within now (last_seen d) 30000 then stale_ids now ds
      else insert (dev_id d) (stale_ids now ds))"
  by (auto simp: stale_ids_def)

lemma active_ids_subset: "active_ids now ds \<subseteq> dev_id ` set ds"
  by (auto simp: active_ids_def)

lemma stale_ids_subset: "stale_ids now ds \<subseteq> dev_id ` set ds"
  by (auto simp: stale_ids_def)



lemma track_devices_result:
  assumes "distinct (map dev_id ds)"
  shows "track_devices now ds (act, inact, ids) = (act', inact', ids') \<Longrightarrow>
         ids' = ids \<union> active_ids now ds \<and>
         dom act' = dom act \<union> active_ids now ds \<and>
         dom inact' = (dom inact - active_ids now ds) \<union> stale_ids now ds"
  using assms
proof (induction ds arbitrary: act inact ids)
  case Nil
  then show ?case by (simp add: active_ids_def stale_ids_def)
next
  case (Cons d ds)
  have notin: "dev_id d \<notin> active_ids now ds" "dev_id d \<notin> stale_ids now ds"
    using Cons.prems(2) active_ids_subset[of now ds] stale_ids_subset[of now ds] by auto
  have dist: "distinct (map dev_id ds)" using Cons.prems(2) by simp
  show ?case
  proof (cases "seen_within now (last_seen d) 30000")
    case True
    with Cons.prems(1) have
      "track_devices now ds (act(dev_id d \<mapsto> d), inact(dev_id d := None), insert (dev_id d) ids)
         = (act', inact', ids')" by simp
    from Cons.IH[OF this dist] True notin show ?thesis
      by (auto simp: active_ids_Cons stale_ids_Cons dom_def split: if_splits)
  next
    case False
    with Cons.prems(1) have
      "track_devices now ds (act, inact(dev_id d \<mapsto> d), ids) = (act', inact', ids')" by simp
    from Cons.IH[OF this dist] False notin show ?thesis
      by (auto simp: active_ids_Cons stale_ids_Cons dom_def split: if_splits)
  qed
qed

lemma normalize_frequency_fields [simp]:
  "dev_id (normalize_frequency d) = dev_id d"
  "last_seen (normalize_frequency d) = last_seen d"
  by (simp_all add: normalize_frequency_def)

lemma active_ids_normalize [simp]:
  "active_ids now (map normalize_frequency ds) = active_ids now ds"
  by (auto simp: active_ids_def image_iff) (metis normalize_frequency_fields)+

lemma stale_ids_normalize [simp]:
  "stale_ids now (map normalize_frequency ds) = stale_ids now ds"
  by (auto simp: stale_ids_def image_iff) (metis normalize_frequency_fields)+

lemma track_snapshot_result:
  assumes "distinct (map dev_id (devices_or_empty data))"
  shows "dom (deviceStatus_active (track_snapshot now data s)) = active_ids now (devices_or_empty data)"
    and "dom (deviceStatus_inactive (track_snapshot now data s)) =
           ((dom (deviceStatus_inactive s) \<union> dom (deviceStatus_active s))
              - active_ids now (devices_or_empty data)) \<union> stale_ids now (devices_or_empty data)"
    and "currentDevices (track_snapshot now data s) =
           map (\<lambda>d. d\<lparr>isActive := dev_id d \<in> active_ids now (devices_or_empty data)\<rparr>)
             (map normalize_frequency (devices_or_empty data))"
proof -
  let ?devs = "map normalize_frequency (devices_or_empty data)"
  obtain act inact ids where t: "track_devices now ?devs
        (Map.empty, deviceStatus_inactive s ++ deviceStatus_active s, {}) = (act, inact, ids)"
    using prod_cases3 by blast
  have d: "distinct (map dev_id ?devs)" using assms by (simp add: comp_def)
  note r = track_devices_result[OF d t]
  show "dom (deviceStatus_active (track_snapshot now data s)) = active_ids now (devices_or_empty data)"
    using r t by (simp add: track_snapshot_def Let_def)
  show "dom (deviceStatus_inactive (track_snapshot now data s)) =
           ((dom (deviceStatus_inactive s) \<union> dom (deviceStatus_active s))
              - active_ids now (devices_or_empty data)) \<union> stale_ids now (devices_or_empty data)"
    using r t by (simp add: track_snapshot_def Let_def Un_commute)
  show "currentDevices (track_snapshot now data s) =
           map (\<lambda>d. d\<lparr>isActive := dev_id d \<in> active_ids now (devices_or_empty data)\<rparr>)
             (map normalize_frequency (devices_or_empty data))"
    using r t by (simp add: track_snapshot_def Let_def)
qed

lemma track_devices_keys:
  "track_devices now ds (act, inact, ids) = (act', inact', ids') \<Longrightarrow>
   dom act' \<union> dom inact' = dom act \<union> dom inact \<union> dev_id ` set ds \<and>
   (\<forall>i. i \<notin> dev_id ` set ds \<longrightarrow> (i \<in> dom inact' \<longleftrightarrow> i \<in> dom inact) \<and> (i \<in> dom act' \<longleftrightarrow> i \<in> dom act))"
proof (induction ds arbitrary: act inact ids)
  case Nil
  then show ?case by simp
next
  case (Cons d ds)
  show ?case
  proof (cases "seen_within now (last_seen d) 30000")
    case True
    with Cons.prems have
      "track_devices now ds (act(dev_id d \<mapsto> d), inact(dev_id d := None), insert (dev_id d) ids)
         = (act', inact', ids')" by simp
    from Cons.IH[OF this] show ?thesis
      by (auto simp: dom_def split: if_splits)
  next
    case False
    with Cons.prems have
      "track_devices now ds (act, inact(dev_id d \<mapsto> d), ids) = (act', inact', ids')" by simp
    from Cons.IH[OF this] show ?thesis
      by (auto simp: dom_def split: if_splits)
  qed
qed

lemma track_snapshot_keys:
  "dom (deviceStatus_active (track_snapshot now data s)) \<union>
     dom (deviceStatus_inactive (track_snapshot now data s)) =
   dom (deviceStatus_active s) \<union> dom (deviceStatus_inactive s) \<union> dev_id ` set (devices_or_empty data)"
  "i \<notin> dev_id ` set (devices_or_empty data) \<Longrightarrow>
     i \<in> dom (deviceStatus_inactive (track_snapshot now data s)) \<longleftrightarrow>
     i \<in> dom (deviceStatus_active s) \<union> dom (deviceStatus_inactive s)"
proof -
  let ?devs = "map normalize_frequency (devices_or_empty data)"
  obtain act inact ids where t: "track_devices now ?devs
        (Map.empty, deviceStatus_inactive s ++ deviceStatus_active s, {}) = (act, inact, ids)"
    using prod_cases3 by blast
  have ids: "dev_id ` set ?devs = dev_id ` set (devices_or_empty data)"
    by (simp add: image_image)
  note r = track_devices_keys[OF t, unfolded ids]
  show "dom (deviceStatus_active (track_snapshot now data s)) \<union>
     dom (deviceStatus_inactive (track_snapshot now data s)) =
   dom (deviceStatus_active s) \<union> dom (deviceStatus_inactive s) \<union> dev_id ` set (devices_or_empty data)"
    using r t by (simp add: track_snapshot_def Let_def)
  show "i \<in> dom (deviceStatus_inactive (track_snapshot now data s)) \<longleftrightarrow>
     i \<in> dom (deviceStatus_active s) \<union> dom (deviceStatus_inactive s)"
    if "i \<notin> dev_id ` set (devices_or_empty data)"
    using r t that by (simp add: track_snapshot_def Let_def)
qed

lemma track_snapshot_ids:
  "map dev_id (currentDevices (track_snapshot now data s)) = map dev_id (devices_or_empty data)"
proof -
  obtain act inact ids where t: "track_devices now (map normalize_frequency (devices_or_empty data))
        (Map.empty, deviceStatus_inactive s ++ deviceStatus_active s, {}) = (act, inact, ids)"
    using prod_cases3 by blast
  then show ?thesis by (simp add: track_snapshot_def Let_def comp_def)
qed

lemma track_snapshot_other [simp]:
  "mapInitialized (track_snapshot now data s) = mapInitialized s"
  "map_obj (track_snapshot now data s) = map_obj s"
  "deviceMarkers (track_snapshot now data s) = deviceMarkers s"
  "geofenceCircle (track_snapshot now data s) = geofenceCircle s"
  "geofenceEnabled (track_snapshot now data s) = geofenceEnabled s"
  "showWhitelistedOnly (track_snapshot now data s) = showWhitelistedOnly s"
  by (simp_all add: track_snapshot_def Let_def split: prod.splits)

lemma updateDeviceList_fields [simp]:
  "mapInitialized (updateDeviceList s) = mapInitialized s"
  "map_obj (updateDeviceList s) = map_obj s"
  "deviceMarkers (updateDeviceList s) = deviceMarkers s"
  "geofenceCircle (updateDeviceList s) = geofenceCircle s"
  "geofenceEnabled (updateDeviceList s) = geofenceEnabled s"
  "showWhitelistedOnly (updateDeviceList s) = showWhitelistedOnly s"
  "alerts (updateDeviceList s) = alerts s"
  by (rule updateDeviceList_other, simp)+

lemma updateMarkers_fields [simp]:
  "mapInitialized (updateMarkers D s) = mapInitialized s"
  "map_obj (updateMarkers D s) = map_obj s"
  "geofenceCircle (updateMarkers D s) = geofenceCircle s"
  "geofenceEnabled (updateMarkers D s) = geofenceEnabled s"
  "showWhitelistedOnly (updateMarkers D s) = showWhitelistedOnly s"
  "deviceList (updateMarkers D s) = deviceList s"
  "alerts (updateMarkers D s) = alerts s"
  by (rule updateMarkers_other, simp)+

lemma station_update_fields [simp]:
  "mapInitialized (snd (station_update D st s)) = mapInitialized s"
  "deviceMarkers (snd (station_update D st s)) = deviceMarkers s"
  "geofenceCircle (snd (station_update D st s)) = geofenceCircle s"
  "geofenceEnabled (snd (station_update D st s)) = geofenceEnabled s"
  "showWhitelistedOnly (snd (station_update D st s)) = showWhitelistedOnly s"
  "deviceList (snd (station_update D st s)) = deviceList s"
  by (rule station_update_other, simp)+

lemma station_update_map_obj:
  "map_obj (snd (station_update D st s)) = None \<longleftrightarrow> map_obj s = None"
  by (simp add: station_update_def Let_def)

lemma updateMarkers_ids:
  "map dev_id (currentDevices (updateMarkers D s)) = map dev_id (currentDevices s)"
  by (rule updateMarkers_proj) simp_all

lemma updateMarkers_dom:
  assumes "map_obj s \<noteq> None" "mapInitialized s"
  shows "dom (deviceMarkers (updateMarkers D s)) \<subseteq> dev_id ` set (currentDevices s)"
proof -
  obtain ds s' where 1: "updateMarkers_each D (currentDevices s) s = (ds, s')"
    by (cases "updateMarkers_each D (currentDevices s) s")
  have "map dev_id ds = map dev_id (currentDevices s)"
    using updateMarkers_each_proj[of dev_id D "currentDevices s" s] 1 by simp
  then have "dev_id ` set ds = dev_id ` set (currentDevices s)"
    by (simp only: set_map[symmetric])
  with assms 1 show ?thesis by (auto simp: updateMarkers_def restrict_map_def dom_def split: if_splits)
qed

lemma updateDeviceList_ids:
  "dev_id ` set (currentDevices (updateDeviceList s)) = dev_id ` set (currentDevices s)"
  using updateDeviceList_mset[of s, THEN mset_eq_setD] by simp

lemmas eval_defs = onmessage_def track_snapshot_def updateDeviceList_def updateMarkers_def
  devices_or_empty_def snapshot_def sample_device_def normalize_frequency_def truthy_def
  seen_within_def initial_state_def compare_devices_def power_or_default_def Let_def
  toggleWhitelistView_def dev_a_def dev_b_def

section \<open>The active and inactive maps after a snapshot\<close>



section \<open>The activity flag\<close>

text \<open>
  C1, as the handler implements it. When \<open>ws.onmessage\<close> processes at time \<open>now\<close> a
  snapshot whose device ids are pairwise distinct, every device with a \<open>last_seen\<close>
  timestamp \<open>t\<close> ends with \<open>isActive\<close> equal to \<open>now - t < 30000\<close>. The flag is computed
  only there: redrawing the list without a new snapshot (\<open>toggleWhitelistView\<close>) shows the
  records of \<open>currentDevices\<close> as they are and leaves that set of records unchanged.
\<close>

theorem onmessage_isActive:
  assumes "distinct (map dev_id (devices_or_empty data))"
  shows "(\<forall>d \<in> set (currentDevices (onmessage D now data s)). \<forall>t.
            last_seen d = Some t \<longrightarrow> isActive d = (now - t < 30000)) \<and>
         set (currentDevices (toggleWhitelistView s)) = set (currentDevices s) \<and>
         set (deviceList (toggleWhitelistView s)) \<subseteq> set (currentDevices s)"
proof -
  let ?f = "\<lambda>d. (dev_id d, last_seen d, isActive d)"
  let ?A = "active_ids now (devices_or_empty data)"
  have "mset (map ?f (currentDevices (onmessage D now data s))) =
        mset (map ?f (currentDevices (track_snapshot now data s)))"
    by (rule onmessage_devices) simp_all
  then have "set (map ?f (currentDevices (onmessage D now data s))) =
             set (map ?f (currentDevices (track_snapshot now data s)))"
    by (rule mset_eq_setD)
  then have eq: "?f ` set (currentDevices (onmessage D now data s)) =
                 ?f ` set (currentDevices (track_snapshot now data s))"
    by (simp only: set_map)
  have 1: "\<forall>d \<in> set (currentDevices (onmessage D now data s)). \<forall>t.
            last_seen d = Some t \<longrightarrow> isActive d = (now - t < 30000)"
  proof (intro ballI allI impI)
    fix d t assume d: "d \<in> set (currentDevices (onmessage D now data s))" and t: "last_seen d = Some t"
    then have "?f d \<in> ?f ` set (currentDevices (track_snapshot now data s))" using eq by blast
    then obtain d0 where d0: "d0 \<in> set (devices_or_empty data)" "dev_id d = dev_id d0"
        "last_seen d = last_seen d0" "isActive d = (dev_id d0 \<in> ?A)"
      by (auto simp: track_snapshot_result(3)[OF assms])
    have "dev_id d0 \<in> ?A \<longleftrightarrow> seen_within now (last_seen d0) 30000"
      using assms d0(1) by (auto simp: active_ids_def distinct_map inj_on_def)
    moreover have "last_seen d0 = Some t" using d0(3) t by simp
    ultimately show "isActive d = (now - t < 30000)" using d0(4) by (simp add: seen_within_def)
  qed
  have "mset (currentDevices (toggleWhitelistView s)) = mset (currentDevices s)"
    unfolding toggleWhitelistView_def by (simp only: updateDeviceList_mset) simp
  then have 2: "set (currentDevices (toggleWhitelistView s)) = set (currentDevices s)"
    by (rule mset_eq_setD)
  have "set (deviceList (toggleWhitelistView s)) =
          set (if \<not> showWhitelistedOnly s then filter whitelisted (currentDevices s)
               else currentDevices s)"
    by (simp add: toggleWhitelistView_def updateDeviceList_def Let_def set_array_sort)
  then have 3: "set (deviceList (toggleWhitelistView s)) \<subseteq> set (currentDevices s)"
    by (auto split: if_splits)
  from 1 2 3 show ?thesis by (intro conjI)
qed

theorem onmessage_isActive_witness:
  "distinct (map dev_id (devices_or_empty (snapshot [dev_a, dev_b]))) \<and>
   map (\<lambda>d. (dev_id d, last_seen d, isActive d))
     (currentDevices (onmessage flat_distance 40000 (snapshot [dev_a, dev_b]) initial_state)) =
     [(''a'', Some 20000, (40000::int) - 20000 < 30000), (''b'', Some 5000, (40000::int) - 5000 < 30000)]"
proof -
  have h: "distinct (map dev_id (devices_or_empty (snapshot [dev_a, dev_b])))"
    by (simp add: eval_defs)
  have c: "map (\<lambda>d. (dev_id d, last_seen d)) (currentDevices (onmessage flat_distance 40000 (snapshot [dev_a, dev_b]) initial_state)) =
     [(''a'', Some 20000), (''b'', Some 5000)]"
    by (simp add: eval_defs)
  from c obtain x y where xy:
      "currentDevices (onmessage flat_distance 40000 (snapshot [dev_a, dev_b]) initial_state) = [x, y]"
      "dev_id x = ''a''" "last_seen x = Some 20000" "dev_id y = ''b''" "last_seen y = Some 5000"
    by (auto simp: map_eq_Cons_conv)
  have "\<forall>d \<in> set [x, y]. \<forall>t. last_seen d = Some t \<longrightarrow> isActive d = (40000 - t < 30000)"
    using onmessage_isActive[OF h, of flat_distance 40000 initial_state] xy(1) by simp
  then have "isActive x = ((40000::int) - 20000 < 30000)" "isActive y = ((40000::int) - 5000 < 30000)"
    using xy(3,5) by simp_all
  with xy h show ?thesis by simp
qed

text \<open>
  The claim as stated fails on aging. A device last seen at time 0 is active in the
  snapshot processed at time 1000. No handler recomputes the flag without a snapshot:
  after the list has been redrawn twice the record still says active, whatever the
  clock says by then, for instance 40000, when 40000 - 0 is not below 30000.
\<close>

theorem aging_counterexample:
  "map (\<lambda>d. (last_seen d, isActive d))
     (currentDevices (toggleWhitelistView (toggleWhitelistView
        (onmessage flat_distance 1000
           (snapshot [sample_device ''a'' (Some 0) None (Some (-40))]) initial_state))))
     = [(Some 0, True)] \<and>
   \<not> ((40000::int) - 0 < 30000)"
  by (simp add: eval_defs)

section \<open>What a snapshot keeps\<close>

lemmas marker_defs = updateMarkers_device_def updateMarkerForDevice_def marker_for_def coords_def
  valid_coords_def restrict_map_def initializeMap_callback_def map_ready_state_def dev_located_def
  object_prototype_names_def

lemma onmessage_ids:
  "dev_id ` set (currentDevices (onmessage D now data s)) = dev_id ` set (devices_or_empty data)"
proof -
  have "mset (map dev_id (currentDevices (onmessage D now data s))) =
        mset (map dev_id (currentDevices (track_snapshot now data s)))"
    by (rule onmessage_devices) simp_all
  then have "set (map dev_id (currentDevices (onmessage D now data s))) =
             set (map dev_id (currentDevices (track_snapshot now data s)))"
    by (rule mset_eq_setD)
  then show ?thesis by (simp only: track_snapshot_ids set_map)
qed

lemma onmessage_markers:
  assumes "mapInitialized s" "map_obj s \<noteq> None"
  shows "dom (deviceMarkers (onmessage D now data s)) \<subseteq> dev_id ` set (devices_or_empty data)"
proof -
  define s1 where "s1 = updateDeviceList (track_snapshot now data s)"
  define s2 where "s2 = updateMarkers D s1"
  define s3 where "s3 = (case monitoring_station data of None \<Rightarrow> s2
                          | Some st \<Rightarrow> snd (station_update D st s2))"
  have ids1: "dev_id ` set (currentDevices s1) = dev_id ` set (devices_or_empty data)"
    unfolding s1_def by (simp only: updateDeviceList_ids) (simp only: track_snapshot_ids flip: set_map)
  have m1: "mapInitialized s1" "map_obj s1 \<noteq> None" using assms by (simp_all add: s1_def)
  have d2: "dom (deviceMarkers s2) \<subseteq> dev_id ` set (devices_or_empty data)"
    unfolding s2_def using updateMarkers_dom[OF m1(2) m1(1), of D] ids1 by simp
  have ids2: "dev_id ` set (currentDevices s2) = dev_id ` set (devices_or_empty data)"
    unfolding s2_def using ids1 updateMarkers_ids[of D s1] by (metis set_map)
  have m2: "mapInitialized s2" "map_obj s2 \<noteq> None"
    using m1 by (simp_all del: not_None_eq add: s2_def)
  have m3: "mapInitialized s3" "deviceMarkers s3 = deviceMarkers s2"
      "currentDevices s3 = currentDevices s2"
    using m2(1) by (simp_all add: s3_def split: option.splits)
  have m3': "map_obj s3 \<noteq> None"
    using m2(2) station_update_map_obj[of D _ s2] unfolding s3_def
    by (cases "monitoring_station data") (simp_all del: not_None_eq)
  have "onmessage D now data s = (if currentDevices s3 \<noteq> [] then updateMarkers D s3 else s3)"
    using m1 unfolding onmessage_def Let_def s3_def s2_def s1_def by simp
  moreover have "dom (deviceMarkers (updateMarkers D s3)) \<subseteq> dev_id ` set (devices_or_empty data)"
    using updateMarkers_dom[OF m3' m3(1), of D] m3(3) ids2 by simp
  ultimately show ?thesis using d2 m3(2) by simp
qed


text \<open>
  C2, as the handler implements it. A snapshot replaces the device list: after
  \<open>ws.onmessage\<close> the ids of \<open>currentDevices\<close> are exactly those of the message, and with
  the map initialised every marker left belongs to an id of the message. Only
  \<open>deviceStatus\<close> remembers: an id that was a key of its active or inactive object before
  is a key of one of them after, and an id the message omits is a key of the inactive
  object.
\<close>

theorem snapshot_replaces_devices:
  "dev_id ` set (currentDevices (onmessage D now data s)) = dev_id ` set (devices_or_empty data) \<and>
   (mapInitialized s \<and> map_obj s \<noteq> None \<longrightarrow>
      dom (deviceMarkers (onmessage D now data s)) \<subseteq> dev_id ` set (devices_or_empty data)) \<and>
   (\<forall>i \<in> dom (deviceStatus_active s) \<union> dom (deviceStatus_inactive s).
      i \<in> dom (deviceStatus_active (onmessage D now data s)) \<union>
          dom (deviceStatus_inactive (onmessage D now data s)) \<and>
      (i \<notin> dev_id ` set (devices_or_empty data) \<longrightarrow>
         i \<in> dom (deviceStatus_inactive (onmessage D now data s))))"
proof (intro conjI impI ballI)
  show "dev_id ` set (currentDevices (onmessage D now data s)) = dev_id ` set (devices_or_empty data)"
    by (rule onmessage_ids)
next
  assume "mapInitialized s \<and> map_obj s \<noteq> None"
  then show "dom (deviceMarkers (onmessage D now data s)) \<subseteq> dev_id ` set (devices_or_empty data)"
    using onmessage_markers by blast
next
  fix i assume i: "i \<in> dom (deviceStatus_active s) \<union> dom (deviceStatus_inactive s)"
  show "i \<in> dom (deviceStatus_active (onmessage D now data s)) \<union>
          dom (deviceStatus_inactive (onmessage D now data s))"
    using i track_snapshot_keys(1)[of now data s] by (simp only: onmessage_status) blast
  show "i \<in> dom (deviceStatus_inactive (onmessage D now data s))"
    if "i \<notin> dev_id ` set (devices_or_empty data)"
    using i track_snapshot_keys(2)[OF that, of now s] by (simp only: onmessage_status) 
qed

lemma one_device_state_eval:
  "map dev_id (currentDevices one_device_state) = [''c'']"
  "deviceMarkers one_device_state ''c'' =
     Some \<lparr>marker_latlng = (37.78, -122.41), marker_color = ''blue'', marker_opacity = 1\<rparr>"
  "mapInitialized one_device_state"
  "map_obj one_device_state = Some (37.7749, -122.4194)"
  "''c'' \<in> dom (deviceStatus_active one_device_state)"
  by (simp_all del: not_None_eq add: one_device_state_def eval_defs marker_defs)

theorem snapshot_replaces_devices_witness:
  "mapInitialized one_device_state \<and> map_obj one_device_state \<noteq> None \<and>
   ''c'' \<in> dom (deviceStatus_active one_device_state) \<union> dom (deviceStatus_inactive one_device_state) \<and>
   ''c'' \<notin> dev_id ` set (devices_or_empty (snapshot [])) \<and>
   dev_id ` set (currentDevices (onmessage flat_distance 2000 (snapshot []) one_device_state)) = {} \<and>
   dom (deviceMarkers (onmessage flat_distance 2000 (snapshot []) one_device_state)) \<subseteq> {} \<and>
   ''c'' \<in> dom (deviceStatus_inactive (onmessage flat_distance 2000 (snapshot []) one_device_state))"
proof -
  have e: "dev_id ` set (devices_or_empty (snapshot [])) = {}"
    by (simp add: devices_or_empty_def snapshot_def)
  have k: "''c'' \<in> dom (deviceStatus_active one_device_state) \<union> dom (deviceStatus_inactive one_device_state)"
    using one_device_state_eval(5) by simp
  have m: "map_obj one_device_state \<noteq> None"
    by (simp only: one_device_state_eval(4) option.distinct not_False_eq_True)
  from snapshot_replaces_devices[of flat_distance 2000 "snapshot []" one_device_state]
  show ?thesis using one_device_state_eval(3) m k unfolding e by blast
qed

text \<open>
  The claim as stated fails: with the map initialised, a snapshot with one located
  device creates its record and its marker; the next snapshot, which omits the device,
  leaves neither in \<open>currentDevices\<close> nor on the map.
\<close>

theorem omitted_device_counterexample:
  "map dev_id (currentDevices one_device_state) = [''c''] \<and>
   deviceMarkers one_device_state ''c'' =
     Some \<lparr>marker_latlng = (37.78, -122.41), marker_color = ''blue'', marker_opacity = 1\<rparr> \<and>
   currentDevices (onmessage flat_distance 2000 (snapshot []) one_device_state) = [] \<and>
   deviceMarkers (onmessage flat_distance 2000 (snapshot []) one_device_state) ''c'' = None"
proof -
  have "currentDevices (onmessage flat_distance 2000 (snapshot []) one_device_state) = []"
    by (simp del: not_None_eq add: onmessage_def Let_def track_snapshot_def devices_or_empty_def
        snapshot_def updateDeviceList_def updateMarkers_def one_device_state_eval(3,4))
  moreover have "deviceMarkers (onmessage flat_distance 2000 (snapshot []) one_device_state) ''c'' = None"
    by (simp del: not_None_eq add: onmessage_def Let_def track_snapshot_def devices_or_empty_def
        snapshot_def updateDeviceList_def updateMarkers_def one_device_state_eval(3,4)
        restrict_map_def)
  ultimately show ?thesis using one_device_state_eval(1,2) by simp
qed

section \<open>The geofence flag\<close>

subsection \<open>Bounds on the distance on the sphere\<close>

lemma cos_lower_quadratic:
  fixes x :: real
  assumes "0 \<le> x"
  shows "1 - x\<^sup>2 / 2 \<le> cos x"
proof -
  define g :: "real \<Rightarrow> real" where "g = (\<lambda>u. cos u + u\<^sup>2 / 2)"
  have "g 0 \<le> g x"
  proof (rule DERIV_nonneg_imp_nondecreasing[OF assms])
    fix u :: real assume "0 \<le> u" "u \<le> x"
    have "(g has_real_derivative (u - sin u)) (at u)"
      unfolding g_def by (auto intro!: derivative_eq_intros)
    moreover have "0 \<le> u - sin u" using sin_x_le_x[OF \<open>0 \<le> u\<close>] by simp
    ultimately show "\<exists>y. (g has_real_derivative y) (at u) \<and> 0 \<le> y" by blast
  qed
  then show ?thesis by (simp add: g_def)
qed

lemma sin_lower_cubic:
  fixes x :: real
  assumes "0 \<le> x"
  shows "x - x ^ 3 / 6 \<le> sin x"
proof -
  define h :: "real \<Rightarrow> real" where "h = (\<lambda>u. sin u - u + u ^ 3 / 6)"
  have "h 0 \<le> h x"
  proof (rule DERIV_nonneg_imp_nondecreasing[OF assms])
    fix u :: real assume "0 \<le> u" "u \<le> x"
    have "(h has_real_derivative (cos u - 1 + u\<^sup>2 / 2)) (at u)"
      unfolding h_def by (auto intro!: derivative_eq_intros simp: power2_eq_square)
    moreover have "0 \<le> cos u - 1 + u\<^sup>2 / 2" using cos_lower_quadratic[OF \<open>0 \<le> u\<close>] by simp
    ultimately show "\<exists>y. (h has_real_derivative y) (at u) \<and> 0 \<le> y" by blast
  qed
  then show ?thesis by (simp add: h_def)
qed

lemma atan2_pos: "0 < x \<Longrightarrow> atan2 y x = arctan (y / x)"
  by (simp add: atan2_def)

lemma earth_distance_self: "earth_distance p p = 0"
  by (simp add: earth_distance_def Let_def atan2_def)

lemma earth_distance_diag:
  "earth_distance (t, t) (0, 0) = 6371000 * (2 * atan2 (sqrt (hav t)) (sqrt (1 - hav t)))"
proof -
  have "sin ((0 - t) * (pi / 180) / 2) = - sin (t * pi / 360)"
    by (simp add: sin_minus[symmetric] del: sin_minus) 
  then show ?thesis
    by (simp add: earth_distance_def Let_def hav_def power2_eq_square algebra_simps)
qed

lemma w500_range: "0 < w500" "w500 < pi / 2"
proof -
  show "0 < w500" by (simp add: w500_def)
  have "w500 < 1" by (simp add: w500_def)
  also have "1 \<le> pi / 2" using pi_ge_two by simp
  finally show "w500 < pi / 2" .
qed

lemma tan_w500_lower: "1 / 31250 \<le> tan w500"
proof -
  have c: "0 < cos w500" "cos w500 \<le> 1"
    using cos_gt_zero_pi[of w500] w500_range by simp_all
  have "1 / 31250 \<le> w500 - w500 ^ 3 / 6" by (simp add: w500_def power3_eq_cube)
  also have "\<dots> \<le> sin w500" using sin_lower_cubic[of w500] w500_range by simp
  finally have s: "1 / 31250 \<le> sin w500" .
  then have s0: "0 \<le> sin w500" by simp
  have "sin w500 * cos w500 \<le> sin w500 * 1"
    by (rule mult_left_mono[OF c(2) s0])
  then have "sin w500 \<le> sin w500 / cos w500"
    using c(1) by (simp add: field_simps)
  with s have "1 / 31250 \<le> sin w500 / cos w500" by (rule order_trans)
  then show ?thesis by (simp only: tan_def)
qed

lemma tan_w500_upper: "tan w500 \<le> 1 / 25000"
proof -
  have "(99 / 100 :: real) \<le> 1 - w500\<^sup>2 / 2" by (simp add: w500_def power2_eq_square)
  also have "\<dots> \<le> cos w500" using cos_lower_quadratic[of w500] w500_range by simp
  finally have c: "99 / 100 \<le> cos w500" .
  have s: "sin w500 \<le> w500" using sin_x_le_x[of w500] w500_range by simp
  have "sin w500 \<le> 1 / 25484" using s by (simp add: w500_def)
  also have "(1 / 25484 :: real) \<le> (1 / 25000) * (99 / 100)" by simp
  also have "\<dots> \<le> (1 / 25000) * cos w500" using c by simp
  finally have "sin w500 \<le> (1 / 25000) * cos w500" .
  moreover have "0 < cos w500" using c by simp
  ultimately show ?thesis by (simp add: tan_def field_simps)
qed

lemma arctan_le_w500: "x \<le> 1 / 31250 \<Longrightarrow> 6371000 * (2 * arctan x) \<le> 500"
proof -
  assume "x \<le> 1 / 31250"
  then have "x \<le> tan w500" using tan_w500_lower by simp
  then have "arctan x \<le> arctan (tan w500)" by (simp only: arctan_le_iff)
  also have "\<dots> = w500" using w500_range by (simp add: arctan_tan)
  finally show ?thesis by (simp add: w500_def)
qed

lemma arctan_gt_w500: "1 / 25000 < x \<Longrightarrow> 500 < 6371000 * (2 * arctan x)"
proof -
  assume "1 / 25000 < x"
  then have "tan w500 < x" using tan_w500_upper by simp
  then have "arctan (tan w500) < arctan x" by (simp only: arctan_less_iff)
  moreover have "arctan (tan w500) = w500" using w500_range by (simp add: arctan_tan)
  ultimately show ?thesis by (simp add: w500_def)
qed

lemma hav_bounds:
  assumes "0 \<le> t" "t \<le> 1"
  shows "0 \<le> hav t" "hav t \<le> 2 * (t / 90)\<^sup>2"
proof -
  define y where "y = t * pi / 360"
  define k where "k = 1 + cos (t * pi / 180)"
  have h: "hav t = (sin y)\<^sup>2 * k" by (simp add: hav_def y_def k_def)
  have "t * pi \<le> t * 4" using assms(1) pi_less_4 by (intro mult_left_mono) simp_all
  then have "t * pi / 360 \<le> t * 4 / 360" by (rule divide_right_mono) simp
  then have y: "0 \<le> y" "y \<le> t / 90"
    using assms(1) by (simp_all add: y_def)
  have k: "0 \<le> k" "k \<le> 2"
    using cos_ge_minus_one[of "t * pi / 180"] cos_le_one[of "t * pi / 180"]
    unfolding k_def by linarith+
  show "0 \<le> hav t" unfolding h using k(1) by simp
  have "\<bar>sin y\<bar> \<le> \<bar>y\<bar>" by (rule abs_sin_x_le_abs_x)
  also have "\<bar>y\<bar> = y" using y(1) by simp
  also note y(2)
  finally have "\<bar>sin y\<bar> \<le> t / 90" .
  then have "\<bar>sin y\<bar> * \<bar>sin y\<bar> \<le> (t / 90) * (t / 90)"
    by (intro mult_mono) (use assms(1) in simp_all)
  then have "(sin y)\<^sup>2 \<le> (t / 90)\<^sup>2" by (simp add: power2_eq_square)
  then have "(sin y)\<^sup>2 * k \<le> (t / 90)\<^sup>2 * 2"
    using k by (intro mult_mono) simp_all
  then show "hav t \<le> 2 * (t / 90)\<^sup>2" unfolding h by (simp only: mult.commute)
qed

lemma earth_distance_near: "earth_distance (0.001, 0.001) (0, 0) \<le> 500"
proof -
  define a where "a = hav (1 / 1000)"
  have b: "0 \<le> a" "a \<le> 2 * ((1 / 1000) / 90)\<^sup>2"
    unfolding a_def by (rule hav_bounds; simp)+
  have a1: "a \<le> (1 / 62500)\<^sup>2" using b(2) by (simp add: power2_eq_square)
  have a2: "(1 / 2)\<^sup>2 \<le> 1 - a" using b(2) by (simp add: power2_eq_square)
  have s1: "sqrt a \<le> 1 / 62500" by (rule real_le_lsqrt[OF _ a1]) simp
  have s2: "1 / 2 \<le> sqrt (1 - a)" by (rule real_le_rsqrt[OF a2])
  have pos: "0 < sqrt (1 - a)" by (rule less_le_trans[OF _ s2]) simp
  have "sqrt a / sqrt (1 - a) \<le> (1 / 62500) / (1 / 2)"
    by (rule frac_le[OF _ s1 _ s2]) (use b(1) in simp_all)
  then have r: "sqrt a / sqrt (1 - a) \<le> 1 / 31250" by simp
  have "earth_distance (1 / 1000, 1 / 1000) (0, 0) = 6371000 * (2 * arctan (sqrt a / sqrt (1 - a)))"
    unfolding a_def earth_distance_diag by (simp only: atan2_pos[OF pos[unfolded a_def]])
  also have "\<dots> \<le> 500" by (rule arctan_le_w500[OF r])
  finally show ?thesis by simp
qed

lemma earth_distance_far: "500 < earth_distance (0.01, 0.01) (0, 0)"
proof -
  define a where "a = hav (1 / 100)"
  define y where "y = (1 / 100) * pi / 360"
  define k where "k = 1 + cos ((1 / 100) * pi / 180)"
  have h: "a = (sin y)\<^sup>2 * k" by (simp add: a_def hav_def y_def k_def)
  have b: "0 \<le> a" "a \<le> 2 * ((1 / 100) / 90)\<^sup>2"
    unfolding a_def by (rule hav_bounds; simp)+
  have y: "1 / 18000 \<le> y" "y \<le> 1 / 9000"
    using pi_ge_two pi_less_4 by (simp_all add: y_def)
  have y0: "0 \<le> y" using y(1) by simp
  have "y * y \<le> (1 / 9000) * (1 / 9000)" by (intro mult_mono y(2)) (use y0 in simp_all)
  then have "99 / 100 \<le> 1 - y * y / 6" by simp
  then have "(1 / 18000) * (99 / 100) \<le> y * (1 - y * y / 6)"
    by (intro mult_mono y(1)) (use y0 in simp_all)
  also have "y * (1 - y * y / 6) = y - y ^ 3 / 6" by (simp add: power3_eq_cube algebra_simps)
  also have "\<dots> \<le> sin y" by (rule sin_lower_cubic[OF y0])
  finally have s: "1 / 20000 \<le> sin y" by simp
  have "(1 / 100) * pi / 180 \<le> pi / 2" using pi_ge_zero by simp
  then have "0 \<le> cos ((1 / 100) * pi / 180)"
    by (intro cos_ge_zero) (use pi_ge_zero in simp_all)
  then have k: "1 \<le> k" by (simp add: k_def)
  have "(sin y)\<^sup>2 * 1 \<le> (sin y)\<^sup>2 * k" by (intro mult_left_mono k) simp
  then have "(sin y)\<^sup>2 \<le> a" by (simp add: h)
  then have "sin y \<le> sqrt a" by (rule real_le_rsqrt)
  with s have s1: "1 / 20000 \<le> sqrt a" by simp
  have lt1: "a < 1" using b(2) by (simp add: power2_eq_square)
  then have pos: "0 < sqrt (1 - a)" by simp
  have "sqrt (1 - a) \<le> 1" using b(1) by simp
  then have "sqrt a * sqrt (1 - a) \<le> sqrt a * 1"
    by (intro mult_left_mono) (use b(1) in simp_all)
  then have "sqrt a \<le> sqrt a / sqrt (1 - a)" using pos by (simp add: field_simps)
  with s1 have "1 / 20000 \<le> sqrt a / sqrt (1 - a)" by (rule order_trans)
  then have r: "1 / 25000 < sqrt a / sqrt (1 - a)" by simp
  have "earth_distance (1 / 100, 1 / 100) (0, 0) = 6371000 * (2 * arctan (sqrt a / sqrt (1 - a)))"
    unfolding a_def earth_distance_diag by (simp only: atan2_pos[OF pos[unfolded a_def]])
  moreover have "500 < 6371000 * (2 * arctan (sqrt a / sqrt (1 - a)))"
    by (rule arctan_gt_w500[OF r])
  ultimately show ?thesis by simp
qed

subsection \<open>The flag after an evaluation pass\<close>

lemma checkGeofence_device_fst: "fst (checkGeofence_device D c d s) = geofence_stamp D c d"
  by (simp add: checkGeofence_device_def geofence_stamp_def Let_def split: option.splits)

lemma checkGeofence_device_erase:
  "(snd (checkGeofence_device D c d s))\<lparr>deviceMarkers := m\<rparr> = s\<lparr>deviceMarkers := m\<rparr>"
  by (simp add: checkGeofence_device_def Let_def updateMarkerForDevice_erase split: option.splits)

lemma checkGeofence_each_fst: "fst (checkGeofence_each D c ds s) = map (geofence_stamp D c) ds"
proof (induction ds arbitrary: s)
  case Nil
  show ?case by simp
next
  case (Cons d ds)
  obtain d' s' where 1: "checkGeofence_device D c d s = (d', s')"
    by (cases "checkGeofence_device D c d s")
  obtain ds' s'' where 2: "checkGeofence_each D c ds s' = (ds', s'')"
    by (cases "checkGeofence_each D c ds s'")
  have "d' = geofence_stamp D c d" using checkGeofence_device_fst[of D c d s] 1 by simp
  moreover have "ds' = map (geofence_stamp D c) ds" using Cons.IH[of s'] 2 by simp
  ultimately show ?case using 1 2 by simp
qed

lemma checkGeofence_each_erase:
  "(snd (checkGeofence_each D c ds s))\<lparr>deviceMarkers := m\<rparr> = s\<lparr>deviceMarkers := m\<rparr>"
proof (induction ds arbitrary: s)
  case Nil
  show ?case by simp
next
  case (Cons d ds)
  obtain d' s' where 1: "checkGeofence_device D c d s = (d', s')"
    by (cases "checkGeofence_device D c d s")
  obtain ds' s'' where 2: "checkGeofence_each D c ds s' = (ds', s'')"
    by (cases "checkGeofence_each D c ds s'")
  have "s''\<lparr>deviceMarkers := m\<rparr> = s'\<lparr>deviceMarkers := m\<rparr>" using Cons.IH[of s'] 2 by simp
  also have "\<dots> = s\<lparr>deviceMarkers := m\<rparr>"
    using checkGeofence_device_erase[where D=D and c=c and d=d and s=s and m=m] 1 by simp
  finally show ?case using 1 2 by simp
qed

lemma checkDevicesAgainstGeofence_devices:
  assumes "geofenceCircle s = Some c" "geofenceEnabled s"
  shows "mset (currentDevices (checkDevicesAgainstGeofence D s)) =
         mset (map (geofence_stamp D c) (currentDevices s))"
proof -
  obtain ds s' where 1: "checkGeofence_each D c (currentDevices s) s = (ds, s')"
    by (cases "checkGeofence_each D c (currentDevices s) s")
  have "ds = map (geofence_stamp D c) (currentDevices s)"
    using checkGeofence_each_fst[of D c "currentDevices s" s] 1 by simp
  moreover have "checkDevicesAgainstGeofence D s = updateDeviceList (s'\<lparr>currentDevices := ds\<rparr>)"
    using assms 1 by (simp add: checkDevicesAgainstGeofence_def)
  ultimately show ?thesis by (simp only: updateDeviceList_mset) simp
qed

lemma checkDevicesAgainstGeofence_off:
  "geofenceCircle s = None \<or> \<not> geofenceEnabled s \<Longrightarrow> checkDevicesAgainstGeofence D s = s"
  by (auto simp: checkDevicesAgainstGeofence_def split: option.splits)

lemma geofence_stamp_flag:
  "location (geofence_stamp D c d) = Some loc \<Longrightarrow>
   insideGeofence (geofence_stamp D c d) = Some (D (coords loc) (circle_center c) \<le> circle_radius c)"
  by (auto simp: geofence_stamp_def split: option.splits)

lemma checkDevicesAgainstGeofence_flag:
  assumes "geofenceCircle s = Some c" "geofenceEnabled s"
    and "d \<in> set (currentDevices (checkDevicesAgainstGeofence D s))" "location d = Some loc"
  shows "insideGeofence d = Some (D (coords loc) (circle_center c) \<le> circle_radius c)"
proof -
  have "set (currentDevices (checkDevicesAgainstGeofence D s)) =
        set (map (geofence_stamp D c) (currentDevices s))"
    by (rule mset_eq_setD) (rule checkDevicesAgainstGeofence_devices[OF assms(1,2)])
  with assms(3) obtain d0 where "d = geofence_stamp D c d0" by auto
  with assms(4) show ?thesis using geofence_stamp_flag by blast
qed

lemma coords_LatLng [simp]: "coords (LatLng (fst p) (snd p)) = p"
  by (simp add: coords_def)

lemma updateMarkers_device_flag:
  assumes "geofenceCircle s = Some c" "geofenceEnabled s"
    and "location (fst (updateMarkers_device D d s)) = Some loc" "valid_coords (coords loc)"
  shows "insideGeofence (fst (updateMarkers_device D d s)) =
           Some (D (coords loc) (circle_center c) \<le> circle_radius c)"
  using assms by (auto simp: updateMarkers_device_def Let_def split: option.splits if_splits)

lemma updateMarkers_device_geofence:
  "geofenceCircle (snd (updateMarkers_device D d s)) = geofenceCircle s"
  "geofenceEnabled (snd (updateMarkers_device D d s)) = geofenceEnabled s"
  using arg_cong[OF updateMarkers_device_erase[where D=D and d=d and s=s and m=Map.empty], of geofenceCircle]
        arg_cong[OF updateMarkers_device_erase[where D=D and d=d and s=s and m=Map.empty], of geofenceEnabled]
  by simp_all

lemma updateMarkers_each_flag:
  assumes "geofenceCircle s = Some c" "geofenceEnabled s"
  shows "\<forall>d \<in> set (fst (updateMarkers_each D ds s)). \<forall>loc.
           location d = Some loc \<and> valid_coords (coords loc) \<longrightarrow>
           insideGeofence d = Some (D (coords loc) (circle_center c) \<le> circle_radius c)"
  using assms
proof (induction ds arbitrary: s)
  case Nil
  show ?case by simp
next
  case (Cons d ds)
  obtain d' s' where 1: "updateMarkers_device D d s = (d', s')" by (cases "updateMarkers_device D d s")
  obtain ds' s'' where 2: "updateMarkers_each D ds s' = (ds', s'')" by (cases "updateMarkers_each D ds s'")
  have g: "geofenceCircle s' = Some c" "geofenceEnabled s'"
    using updateMarkers_device_geofence[of D d s] 1 Cons.prems by simp_all
  have hd: "\<forall>loc. location d' = Some loc \<and> valid_coords (coords loc) \<longrightarrow>
           insideGeofence d' = Some (D (coords loc) (circle_center c) \<le> circle_radius c)"
    using updateMarkers_device_flag[OF Cons.prems, of D d] 1 by simp
  have tl: "\<forall>x \<in> set ds'. \<forall>loc. location x = Some loc \<and> valid_coords (coords loc) \<longrightarrow>
           insideGeofence x = Some (D (coords loc) (circle_center c) \<le> circle_radius c)"
    using Cons.IH[OF g] 2 by simp
  show ?case using 1 2 hd tl by simp
qed

lemma updateMarkers_flag:
  assumes "geofenceCircle s = Some c" "geofenceEnabled s" "mapInitialized s" "map_obj s \<noteq> None"
  shows "\<forall>d \<in> set (currentDevices (updateMarkers D s)). \<forall>loc.
           location d = Some loc \<and> valid_coords (coords loc) \<longrightarrow>
           insideGeofence d = Some (D (coords loc) (circle_center c) \<le> circle_radius c)"
proof -
  obtain ds s' where 1: "updateMarkers_each D (currentDevices s) s = (ds, s')"
    by (cases "updateMarkers_each D (currentDevices s) s")
  have "currentDevices (updateMarkers D s) = ds"
    using assms(3,4) 1 by (simp add: updateMarkers_def del: not_None_eq)
  then show ?thesis using updateMarkers_each_flag[OF assms(1,2), of D "currentDevices s"] 1 by simp
qed

lemma onmessage_flag:
  assumes "geofenceCircle s = Some c" "geofenceEnabled s" "mapInitialized s" "map_obj s \<noteq> None"
  shows "\<forall>d \<in> set (currentDevices (onmessage D now data s)). \<forall>loc.
           location d = Some loc \<and> valid_coords (coords loc) \<longrightarrow>
           insideGeofence d = Some (D (coords loc) (circle_center c) \<le> circle_radius c)"
proof -
  define s1 where "s1 = updateDeviceList (track_snapshot now data s)"
  define s2 where "s2 = updateMarkers D s1"
  define s3 where "s3 = (case monitoring_station data of None \<Rightarrow> s2
                          | Some st \<Rightarrow> snd (station_update D st s2))"
  have m1: "mapInitialized s1" "map_obj s1 \<noteq> None" using assms by (simp_all add: s1_def)
  have g2: "geofenceCircle s2 = Some c" "geofenceEnabled s2" "mapInitialized s2" "map_obj s2 \<noteq> None"
    using assms by (simp_all del: not_None_eq add: s2_def s1_def)
  have g3: "geofenceCircle s3 = Some c" "geofenceEnabled s3" "mapInitialized s3"
    using g2 by (simp_all add: s3_def split: option.splits)
  have m3: "map_obj s3 \<noteq> None"
    using g2(4) station_update_map_obj[of D _ s2] unfolding s3_def
    by (cases "monitoring_station data") (simp_all del: not_None_eq)
  have "onmessage D now data s = (if currentDevices s3 \<noteq> [] then updateMarkers D s3 else s3)"
    using m1 unfolding onmessage_def Let_def s3_def s2_def s1_def by simp
  then show ?thesis using updateMarkers_flag[OF g3 m3, of D] by auto
qed

lemma two_device_state_eval:
  "currentDevices two_device_state =
     [dev_near\<lparr>frequency_mhz := Some 915.23, isActive := True, location := Some (LatLng 0.001 0.001)\<rparr>,
      dev_far\<lparr>frequency_mhz := Some 915.23, isActive := True, location := Some (LatLng 0.01 0.01)\<rparr>]"
  "map_obj two_device_state = Some (37.7749, -122.4194)"
  "mapInitialized two_device_state"
  "geofenceCircle two_device_state = None"
  "showWhitelistedOnly two_device_state = False"
  by (simp_all del: not_None_eq add: two_device_state_def eval_defs marker_defs dev_near_def dev_far_def)

lemma near_far_flags:
  "(earth_distance (1 / 1000, 1 / 1000) (0, 0) \<le> 500) = True"
  "(earth_distance (1 / 100, 1 / 100) (0, 0) \<le> 500) = False"
  using earth_distance_near earth_distance_far by simp_all

lemma fenced_state_eval:
  "currentDevices fenced_state =
     [dev_near\<lparr>frequency_mhz := Some 915.23, isActive := True,
        location := Some (LatLng 0.001 0.001), insideGeofence := Some True\<rparr>,
      dev_far\<lparr>frequency_mhz := Some 915.23, isActive := True,
        location := Some (LatLng 0.01 0.01), insideGeofence := Some False\<rparr>]"
  "geofenceCircle fenced_state = Some \<lparr>circle_center = (0, 0), circle_radius = 500\<rparr>"
  "geofenceEnabled fenced_state"
  "deviceList fenced_state = currentDevices fenced_state"
  by (simp_all del: not_None_eq add: fenced_state_def setGeofenceAtPosition_def
      checkDevicesAgainstGeofence_def checkGeofence_device_def two_device_state_eval
      updateDeviceList_def compare_devices_def power_or_default_def truthy_def Let_def
      updateMarkerForDevice_def object_prototype_names_def coords_def near_far_flags
      dev_near_def dev_far_def sample_device_def)

lemma fenced_state_map:
  "mapInitialized fenced_state" "map_obj fenced_state = Some (37.7749, -122.4194)"
  "showWhitelistedOnly fenced_state = False"
  "userMarker fenced_state = Some (37.7749, -122.4194)"
  "deviceStatus_active fenced_state = deviceStatus_active two_device_state"
  "deviceStatus_inactive fenced_state = deviceStatus_inactive two_device_state"
  by (simp_all del: not_None_eq add: fenced_state_def setGeofenceAtPosition_def
      checkDevicesAgainstGeofence_def checkGeofence_device_def two_device_state_eval
      updateDeviceList_def Let_def
      two_device_state_def eval_defs marker_defs dev_near_def dev_far_def split: prod.splits)

text \<open>
  C3. With a circle set and the geofence enabled, \<open>checkDevicesAgainstGeofence\<close> leaves
  every device that has a location with \<open>insideGeofence\<close> equal to "distance from the
  device to the centre \<le> radius", for any distance function; so does the snapshot handler
  (map initialised) for every device whose coordinates are in range. For the great-circle
  distance and the circle of radius 500 that \<open>setGeofenceAtPosition\<close> puts at (0, 0), the
  device at (0.001, 0.001) is inside and the device at (0.01, 0.01) is outside.
\<close>

theorem geofence_flag:
  "(geofenceCircle s = Some c \<and> geofenceEnabled s \<longrightarrow>
      (\<forall>d \<in> set (currentDevices (checkDevicesAgainstGeofence D s)). \<forall>loc.
          location d = Some loc \<longrightarrow>
          insideGeofence d = Some (D (coords loc) (circle_center c) \<le> circle_radius c))) \<and>
   (geofenceCircle s = Some c \<and> geofenceEnabled s \<and> mapInitialized s \<and> map_obj s \<noteq> None \<longrightarrow>
      (\<forall>d \<in> set (currentDevices (onmessage D now data s)). \<forall>loc.
          location d = Some loc \<and> valid_coords (coords loc) \<longrightarrow>
          insideGeofence d = Some (D (coords loc) (circle_center c) \<le> circle_radius c))) \<and>
   map (\<lambda>d. (dev_id d, location d, insideGeofence d))
     (currentDevices (setGeofenceAtPosition earth_distance (0, 0) two_device_state)) =
     [(''near'', Some (LatLng 0.001 0.001), Some True),
      (''far'', Some (LatLng 0.01 0.01), Some False)]"
proof (intro conjI impI)
  assume "geofenceCircle s = Some c \<and> geofenceEnabled s"
  then show "\<forall>d \<in> set (currentDevices (checkDevicesAgainstGeofence D s)). \<forall>loc.
          location d = Some loc \<longrightarrow>
          insideGeofence d = Some (D (coords loc) (circle_center c) \<le> circle_radius c)"
    using checkDevicesAgainstGeofence_flag by blast
next
  assume "geofenceCircle s = Some c \<and> geofenceEnabled s \<and> mapInitialized s \<and> map_obj s \<noteq> None"
  then show "\<forall>d \<in> set (currentDevices (onmessage D now data s)). \<forall>loc.
          location d = Some loc \<and> valid_coords (coords loc) \<longrightarrow>
          insideGeofence d = Some (D (coords loc) (circle_center c) \<le> circle_radius c)"
    using onmessage_flag by blast
next
  show "map (\<lambda>d. (dev_id d, location d, insideGeofence d))
     (currentDevices (setGeofenceAtPosition earth_distance (0, 0) two_device_state)) =
     [(''near'', Some (LatLng 0.001 0.001), Some True),
      (''far'', Some (LatLng 0.01 0.01), Some False)]"
    using fenced_state_eval(1) by (simp add: fenced_state_def dev_near_def dev_far_def sample_device_def)
qed

theorem geofence_flag_witness:
  "geofenceCircle fenced_state = Some \<lparr>circle_center = (0, 0), circle_radius = 500\<rparr> \<and>
   geofenceEnabled fenced_state \<and> mapInitialized fenced_state \<and> map_obj fenced_state \<noteq> None \<and>
   map (\<lambda>d. (dev_id d, location d, insideGeofence d))
     (currentDevices (checkDevicesAgainstGeofence flat_distance fenced_state)) =
     [(''near'', Some (LatLng 0.001 0.001), Some (flat_distance (0.001, 0.001) (0, 0) \<le> 500)),
      (''far'', Some (LatLng 0.01 0.01), Some (flat_distance (0.01, 0.01) (0, 0) \<le> 500))] \<and>
   map (\<lambda>d. (dev_id d, location d, insideGeofence d))
     (currentDevices (onmessage flat_distance 2000 (snapshot [dev_far]) fenced_state)) =
     [(''far'', Some (LatLng 0.01 0.01), Some (flat_distance (0.01, 0.01) (0, 0) \<le> 500))]"
proof -
  let ?c = "\<lparr>circle_center = (0, 0), circle_radius = 500\<rparr>"
  let ?s1 = "checkDevicesAgainstGeofence flat_distance fenced_state"
  let ?s2 = "onmessage flat_distance 2000 (snapshot [dev_far]) fenced_state"
  have g: "geofenceCircle fenced_state = Some ?c" "geofenceEnabled fenced_state"
    by (rule fenced_state_eval)+
  have m: "mapInitialized fenced_state" "map_obj fenced_state \<noteq> None"
    by (simp_all only: fenced_state_map option.distinct not_False_eq_True)
  note th = geofence_flag[of fenced_state ?c flat_distance 2000 "snapshot [dev_far]"]
  have l1: "map (\<lambda>d. (dev_id d, location d)) (currentDevices ?s1) =
              [(''near'', Some (LatLng 0.001 0.001)), (''far'', Some (LatLng 0.01 0.01))]"
    by (simp del: not_None_eq add: checkDevicesAgainstGeofence_def checkGeofence_device_def
        fenced_state_eval fenced_state_map updateDeviceList_def compare_devices_def
        power_or_default_def truthy_def Let_def updateMarkerForDevice_def
        object_prototype_names_def coords_def dev_near_def dev_far_def sample_device_def)
  have l2: "map (\<lambda>d. (dev_id d, location d)) (currentDevices ?s2) = [(''far'', Some (LatLng 0.01 0.01))]"
    by (simp del: not_None_eq add: eval_defs marker_defs fenced_state_eval fenced_state_map
        dev_far_def)
  from l1 obtain x y where xy: "currentDevices ?s1 = [x, y]"
      "dev_id x = ''near''" "location x = Some (LatLng 0.001 0.001)"
      "dev_id y = ''far''" "location y = Some (LatLng 0.01 0.01)"
    by (auto simp: map_eq_Cons_conv)
  from l2 obtain z where z: "currentDevices ?s2 = [z]"
      "dev_id z = ''far''" "location z = Some (LatLng 0.01 0.01)"
    by (auto simp: map_eq_Cons_conv)
  have a1: "\<forall>d \<in> set [x, y]. \<forall>loc. location d = Some loc \<longrightarrow>
          insideGeofence d = Some (flat_distance (coords loc) (circle_center ?c) \<le> circle_radius ?c)"
    using th g xy(1) by simp
  have a2: "\<forall>d \<in> set [z]. \<forall>loc. location d = Some loc \<and> valid_coords (coords loc) \<longrightarrow>
          insideGeofence d = Some (flat_distance (coords loc) (circle_center ?c) \<le> circle_radius ?c)"
    using th g m z(1) by simp
  have fx: "insideGeofence x = Some (flat_distance (0.001, 0.001) (0, 0) \<le> 500)"
    using a1 xy(3) by (simp add: coords_def)
  have fy: "insideGeofence y = Some (flat_distance (0.01, 0.01) (0, 0) \<le> 500)"
    using a1 xy(5) by (simp add: coords_def)
  have fz: "insideGeofence z = Some (flat_distance (0.01, 0.01) (0, 0) \<le> 500)"
    using a2 z(3) by (simp add: coords_def valid_coords_def)
  show ?thesis
    apply (intro conjI)
         apply (rule g(1))
        apply (rule g(2))
       apply (rule m(1))
      apply (rule m(2))
     apply (simp only: xy list.map fx fy)
    apply (simp only: z list.map fz)
    done
qed

section \<open>Disabling the geofence\<close>

text \<open>
  C4 does not hold of the code. \<open>toggleGeofence\<close> disables the geofence and then calls
  \<open>checkDevicesAgainstGeofence\<close> under the comment "Update device status", but that function
  returns at once when the geofence is disabled: nothing is re-evaluated or redrawn, and
  the flags set while it was enabled stay on the records of \<open>currentDevices\<close> and of the list
  last drawn.
\<close>

theorem stale_geofence_flag:
  "geofenceEnabled fenced_state \<and>
   geofenceEnabled (toggleGeofence earth_distance fenced_state) = False \<and>
   map (\<lambda>d. (dev_id d, insideGeofence d)) (currentDevices (toggleGeofence earth_distance fenced_state)) =
     [(''near'', Some True), (''far'', Some False)] \<and>
   map (\<lambda>d. (dev_id d, insideGeofence d)) (deviceList (toggleGeofence earth_distance fenced_state)) =
     [(''near'', Some True), (''far'', Some False)]"
  by (simp add: toggleGeofence_def checkDevicesAgainstGeofence_off fenced_state_eval
      dev_near_def dev_far_def sample_device_def)

section \<open>The station marker\<close>

text \<open>
  C6 does not hold of the code. The handler moves the station marker to the new fix and
  only then measures the distance from the marker to the new fix, which is 0. With the
  map initialised, as it is once the page has loaded, none of the fixes (0, 0),
  (0, 0.0001), (0, 0.01) calls \<open>map.setView\<close>: the view stays where it was while the
  marker ends at (0, 0.01).
\<close>

theorem station_never_recentred:
  "fst (station_updates earth_distance fix_sequence map_ready_state) = [False, False, False] \<and>
   map_obj (snd (station_updates earth_distance fix_sequence map_ready_state)) =
     Some (37.7749, -122.4194) \<and>
   userMarker (snd (station_updates earth_distance fix_sequence map_ready_state)) = Some (0, 0.01)"
  by (simp del: not_None_eq add: fix_sequence_def station_update_def getDistance_def Let_def
      earth_distance_self map_ready_state_def initializeMap_callback_def initial_state_def)

section \<open>Devices without location\<close>

lemma geofence_stamp_no_location:
  "filter (\<lambda>d. location d = None) (map (geofence_stamp D c) ds) =
   filter (\<lambda>d. location d = None) ds"
  by (induction ds) (auto simp: geofence_stamp_def split: option.splits)

lemma checkDevicesAgainstGeofence_no_location:
  "mset (filter (\<lambda>d. location d = None) (currentDevices (checkDevicesAgainstGeofence D s))) =
   mset (filter (\<lambda>d. location d = None) (currentDevices s))"
proof (cases "geofenceCircle s = None \<or> \<not> geofenceEnabled s")
  case True
  then show ?thesis by (simp only: checkDevicesAgainstGeofence_off)
next
  case False
  then obtain c where c: "geofenceCircle s = Some c" "geofenceEnabled s" by auto
  have "mset (filter (\<lambda>d. location d = None) (currentDevices (checkDevicesAgainstGeofence D s))) =
        filter_mset (\<lambda>d. location d = None) (mset (currentDevices (checkDevicesAgainstGeofence D s)))"
    by (simp only: mset_filter)
  also have "\<dots> = filter_mset (\<lambda>d. location d = None) (mset (map (geofence_stamp D c) (currentDevices s)))"
    by (simp only: checkDevicesAgainstGeofence_devices[OF c])
  also have "\<dots> = mset (filter (\<lambda>d. location d = None) (map (geofence_stamp D c) (currentDevices s)))"
    by (simp only: mset_filter)
  also have "\<dots> = mset (filter (\<lambda>d. location d = None) (currentDevices s))"
    by (simp only: geofence_stamp_no_location)
  finally show ?thesis .
qed

lemma updateMarkers_device_no_location:
  "location d = None \<Longrightarrow> updateMarkers_device D d s = (d, s)"
  "location d \<noteq> None \<Longrightarrow> location (fst (updateMarkers_device D d s)) \<noteq> None"
  by (auto simp: updateMarkers_device_def Let_def split: option.splits)

lemma updateMarkers_each_no_location:
  "filter (\<lambda>d. location d = None) (fst (updateMarkers_each D ds s)) =
   filter (\<lambda>d. location d = None) ds"
proof (induction ds arbitrary: s)
  case Nil
  show ?case by simp
next
  case (Cons d ds)
  obtain d' s' where 1: "updateMarkers_device D d s = (d', s')" by (cases "updateMarkers_device D d s")
  obtain ds' s'' where 2: "updateMarkers_each D ds s' = (ds', s'')" by (cases "updateMarkers_each D ds s'")
  have tl: "filter (\<lambda>d. location d = None) ds' = filter (\<lambda>d. location d = None) ds"
    using Cons.IH[of s'] 2 by simp
  show ?case
  proof (cases "location d = None")
    case True
    then have "d' = d" using updateMarkers_device_no_location(1)[of d D s] 1 by simp
    with True tl 1 2 show ?thesis by simp
  next
    case False
    then have "location d' \<noteq> None" using updateMarkers_device_no_location(2)[of d D s] 1 by simp
    with False tl 1 2 show ?thesis by simp
  qed
qed

lemma updateMarkers_no_location:
  "filter (\<lambda>d. location d = None) (currentDevices (updateMarkers D s)) =
   filter (\<lambda>d. location d = None) (currentDevices s)"
proof (cases "map_obj s = None \<or> \<not> mapInitialized s")
  case True
  then show ?thesis by (simp add: updateMarkers_def)
next
  case False
  obtain ds s' where 1: "updateMarkers_each D (currentDevices s) s = (ds, s')"
    by (cases "updateMarkers_each D (currentDevices s) s")
  have "filter (\<lambda>d. location d = None) ds = filter (\<lambda>d. location d = None) (currentDevices s)"
    using updateMarkers_each_no_location[of D "currentDevices s" s] 1 by simp
  with False 1 show ?thesis by (simp add: updateMarkers_def)
qed

lemma track_snapshot_no_location:
  "map (\<lambda>d. (dev_id d, insideGeofence d))
     (filter (\<lambda>d. location d = None) (currentDevices (track_snapshot now data s))) =
   map (\<lambda>d. (dev_id d, insideGeofence d))
     (filter (\<lambda>d. location d = None) (devices_or_empty data))"
proof -
  obtain act inact ids where t: "track_devices now (map normalize_frequency (devices_or_empty data))
        (Map.empty, deviceStatus_inactive s ++ deviceStatus_active s, {}) = (act, inact, ids)"
    using prod_cases3 by blast
  have c: "currentDevices (track_snapshot now data s) =
           map (\<lambda>d. (normalize_frequency d)\<lparr>isActive := dev_id (normalize_frequency d) \<in> ids\<rparr>)
             (devices_or_empty data)"
    using t by (simp add: track_snapshot_def Let_def comp_def)
  have n: "\<And>d. location (normalize_frequency d) = location d"
      "\<And>d. insideGeofence (normalize_frequency d) = insideGeofence d"
    by (simp_all add: normalize_frequency_def)
  show ?thesis unfolding c by (induction "devices_or_empty data") (simp_all add: n filter_map comp_def)
qed

lemma onmessage_no_location:
  "mset (filter (\<lambda>d. location d = None) (currentDevices (onmessage D now data s))) =
   mset (filter (\<lambda>d. location d = None) (currentDevices (track_snapshot now data s)))"
proof -
  define s1 where "s1 = updateDeviceList (track_snapshot now data s)"
  define s2 where "s2 = (if mapInitialized s1 \<and> map_obj s1 \<noteq> None then updateMarkers D s1 else s1)"
  define s3 where "s3 = (case monitoring_station data of None \<Rightarrow> s2
                          | Some st \<Rightarrow> snd (station_update D st s2))"
  define s4 where "s4 = (if currentDevices s3 \<noteq> [] then updateMarkers D s3 else s3)"
  have "mset (currentDevices s1) = mset (currentDevices (track_snapshot now data s))"
    unfolding s1_def by (simp only: updateDeviceList_mset)
  then have "filter_mset (\<lambda>d. location d = None) (mset (currentDevices s1)) =
             filter_mset (\<lambda>d. location d = None) (mset (currentDevices (track_snapshot now data s)))"
    by (simp only:)
  then have 1: "mset (filter (\<lambda>d. location d = None) (currentDevices s1)) =
                mset (filter (\<lambda>d. location d = None) (currentDevices (track_snapshot now data s)))"
    by (simp only: mset_filter)
  have 2: "filter (\<lambda>d. location d = None) (currentDevices s2) =
           filter (\<lambda>d. location d = None) (currentDevices s1)"
    unfolding s2_def by (simp only: updateMarkers_no_location split: if_splits) simp
  have 3: "currentDevices s3 = currentDevices s2"
    unfolding s3_def by (simp split: option.splits)
  have 4: "filter (\<lambda>d. location d = None) (currentDevices s4) =
           filter (\<lambda>d. location d = None) (currentDevices s3)"
    unfolding s4_def by (simp only: updateMarkers_no_location split: if_splits) simp
  have "onmessage D now data s = s4"
    unfolding onmessage_def Let_def s4_def s3_def s2_def s1_def by (rule refl)
  with 1 2 3 4 show ?thesis by simp
qed

text \<open>
  C7. The geofence is evaluated in \<open>checkDevicesAgainstGeofence\<close> (reached from
  \<open>setGeofenceAtPosition\<close> and \<open>toggleGeofence\<close>) and in the \<open>updateMarkers\<close> pass of
  \<open>ws.onmessage\<close>. Both loops test \<open>device.location\<close> first, and no statement of theirs
  outside the try block of \<open>updateMarkerForDevice\<close> can throw, so each handler returns a
  state. For a device without location one round of either loop changes neither the
  device nor the state, whatever the circle and whether or not the geofence is enabled.
  Hence each handler leaves the records without location as they were, and after a
  snapshot every device without location has the \<open>insideGeofence\<close> it arrived with: none,
  for a device of the API. (\<open>processDeviceData\<close>, which has no such test, is not called
  by any handler; it is treated at the end of this theory.)
\<close>

theorem missing_location_skipped:
  "(location d = None \<longrightarrow>
      checkGeofence_device D c d s = (d, s) \<and> updateMarkers_device D d s = (d, s)) \<and>
   mset (filter (\<lambda>d. location d = None) (currentDevices (checkDevicesAgainstGeofence D s))) =
     mset (filter (\<lambda>d. location d = None) (currentDevices s)) \<and>
   mset (filter (\<lambda>d. location d = None) (currentDevices (setGeofenceAtPosition D p s))) =
     mset (filter (\<lambda>d. location d = None) (currentDevices s)) \<and>
   mset (filter (\<lambda>d. location d = None) (currentDevices (toggleGeofence D s))) =
     mset (filter (\<lambda>d. location d = None) (currentDevices s)) \<and>
   mset (map (\<lambda>d. (dev_id d, insideGeofence d))
          (filter (\<lambda>d. location d = None) (currentDevices (onmessage D now data s)))) =
     mset (map (\<lambda>d. (dev_id d, insideGeofence d))
            (filter (\<lambda>d. location d = None) (devices_or_empty data)))"
proof (intro conjI impI)
  assume "location d = None"
  then show "checkGeofence_device D c d s = (d, s)"
    by (simp add: checkGeofence_device_def)
next
  assume "location d = None"
  then show "updateMarkers_device D d s = (d, s)"
    by (rule updateMarkers_device_no_location)
next
  show "mset (filter (\<lambda>d. location d = None) (currentDevices (checkDevicesAgainstGeofence D s))) =
        mset (filter (\<lambda>d. location d = None) (currentDevices s))"
    by (rule checkDevicesAgainstGeofence_no_location)
next
  show "mset (filter (\<lambda>d. location d = None) (currentDevices (setGeofenceAtPosition D p s))) =
        mset (filter (\<lambda>d. location d = None) (currentDevices s))"
  proof (cases "map_obj s = None")
    case True
    then show ?thesis by (simp add: setGeofenceAtPosition_def)
  next
    case False
    have "mset (filter (\<lambda>d. location d = None)
            (currentDevices (checkDevicesAgainstGeofence D
               (s\<lparr>geofenceCircle := Some \<lparr>circle_center = p, circle_radius = 500\<rparr>,
                  geofenceEnabled := True\<rparr>)))) =
          mset (filter (\<lambda>d. location d = None)
            (currentDevices (s\<lparr>geofenceCircle := Some \<lparr>circle_center = p, circle_radius = 500\<rparr>,
                  geofenceEnabled := True\<rparr>)))"
      by (rule checkDevicesAgainstGeofence_no_location)
    with False show ?thesis by (simp del: not_None_eq mset_filter add: setGeofenceAtPosition_def)
  qed
next
  show "mset (filter (\<lambda>d. location d = None) (currentDevices (toggleGeofence D s))) =
        mset (filter (\<lambda>d. location d = None) (currentDevices s))"
  proof (cases "geofenceCircle s = None")
    case True
    then show ?thesis by (simp add: toggleGeofence_def)
  next
    case False
    have "mset (filter (\<lambda>d. location d = None)
            (currentDevices (checkDevicesAgainstGeofence D
               (s\<lparr>geofenceEnabled := \<not> geofenceEnabled s\<rparr>)))) =
          mset (filter (\<lambda>d. location d = None)
            (currentDevices (s\<lparr>geofenceEnabled := \<not> geofenceEnabled s\<rparr>)))"
      by (rule checkDevicesAgainstGeofence_no_location)
    with False show ?thesis by (simp del: not_None_eq mset_filter add: toggleGeofence_def)
  qed
next
  have "mset (map (\<lambda>d. (dev_id d, insideGeofence d))
          (filter (\<lambda>d. location d = None) (currentDevices (onmessage D now data s)))) =
        image_mset (\<lambda>d. (dev_id d, insideGeofence d))
          (mset (filter (\<lambda>d. location d = None) (currentDevices (onmessage D now data s))))"
    by simp
  also have "\<dots> = image_mset (\<lambda>d. (dev_id d, insideGeofence d))
          (mset (filter (\<lambda>d. location d = None) (currentDevices (track_snapshot now data s))))"
    by (simp only: onmessage_no_location)
  also have "\<dots> = mset (map (\<lambda>d. (dev_id d, insideGeofence d))
          (filter (\<lambda>d. location d = None) (currentDevices (track_snapshot now data s))))"
    by simp
  also have "\<dots> = mset (map (\<lambda>d. (dev_id d, insideGeofence d))
            (filter (\<lambda>d. location d = None) (devices_or_empty data)))"
    by (simp only: track_snapshot_no_location)
  finally show "mset (map (\<lambda>d. (dev_id d, insideGeofence d))
          (filter (\<lambda>d. location d = None) (currentDevices (onmessage D now data s)))) =
     mset (map (\<lambda>d. (dev_id d, insideGeofence d))
            (filter (\<lambda>d. location d = None) (devices_or_empty data)))" .
qed

text \<open>
  With a circle set and the geofence enabled, a snapshot with a device without location
  and a device outside the circle: the first is passed over by the loop and ends without
  a flag.
\<close>

theorem missing_location_skipped_witness:
  "location dev_a = None \<and>
   geofenceCircle fenced_state = Some \<lparr>circle_center = (0, 0), circle_radius = 500\<rparr> \<and>
   geofenceEnabled fenced_state \<and>
   checkGeofence_device earth_distance \<lparr>circle_center = (0, 0), circle_radius = 500\<rparr> dev_a
     fenced_state = (dev_a, fenced_state) \<and>
   updateMarkers_device earth_distance dev_a fenced_state = (dev_a, fenced_state) \<and>
   mset (map (\<lambda>d. (dev_id d, insideGeofence d))
          (filter (\<lambda>d. location d = None)
             (currentDevices (onmessage earth_distance 21000 (snapshot [dev_a, dev_far]) fenced_state)))) =
     {#(''a'', None)#}"
proof -
  have l: "location dev_a = None" by (simp add: dev_a_def sample_device_def)
  have f: "map (\<lambda>d. (dev_id d, insideGeofence d))
            (filter (\<lambda>d. location d = None) (devices_or_empty (snapshot [dev_a, dev_far]))) =
           [(''a'', None)]"
    by (simp add: devices_or_empty_def snapshot_def dev_a_def dev_far_def sample_device_def)
  note th = missing_location_skipped[of dev_a earth_distance
      "\<lparr>circle_center = (0, 0), circle_radius = 500\<rparr>" fenced_state "(0, 0)" 21000
      "snapshot [dev_a, dev_far]"]
  from th l have 1: "checkGeofence_device earth_distance \<lparr>circle_center = (0, 0), circle_radius = 500\<rparr>
      dev_a fenced_state = (dev_a, fenced_state)"
    and 2: "updateMarkers_device earth_distance dev_a fenced_state = (dev_a, fenced_state)"
    by blast+
  from th have 3: "mset (map (\<lambda>d. (dev_id d, insideGeofence d))
          (filter (\<lambda>d. location d = None)
             (currentDevices (onmessage earth_distance 21000 (snapshot [dev_a, dev_far]) fenced_state)))) =
     mset (map (\<lambda>d. (dev_id d, insideGeofence d))
            (filter (\<lambda>d. location d = None) (devices_or_empty (snapshot [dev_a, dev_far]))))"
    by blast
  have 4: "mset (map (\<lambda>d. (dev_id d, insideGeofence d))
          (filter (\<lambda>d. location d = None)
             (currentDevices (onmessage earth_distance 21000 (snapshot [dev_a, dev_far]) fenced_state)))) =
     {#(''a'', None)#}"
    unfolding 3 f by simp
  from l 1 2 4 fenced_state_eval(2,3) show ?thesis by (intro conjI)
qed

section \<open>Adding to the whitelist\<close>

lemma update_first_proj:
  assumes "\<And>x. g (f x) = g x"
  shows "map g (update_first P f xs) = map g xs"
  by (induction xs) (simp_all add: assms)

lemma update_first_hit:
  "i \<in> dev_id ` set xs \<Longrightarrow>
   \<exists>x \<in> set xs. dev_id x = i \<and> f x \<in> set (update_first (\<lambda>d. dev_id d = i) f xs)"
  by (induction xs) auto

lemma update_first_unique:
  assumes "\<And>x. dev_id (f x) = dev_id x"
  shows "distinct (map dev_id xs) \<Longrightarrow> d \<in> set (update_first (\<lambda>d. dev_id d = i) f xs) \<Longrightarrow>
         dev_id d = i \<Longrightarrow> \<exists>x. d = f x"
proof (induction xs)
  case Nil
  then show ?case by simp
next
  case (Cons x xs)
  show ?case
  proof (cases "dev_id x = i")
    case True
    with Cons.prems have "d = f x \<or> d \<in> set xs" by simp
    moreover have "d \<notin> set xs" using Cons.prems(1,3) True by (auto simp: image_iff)
    ultimately show ?thesis by blast
  next
    case False
    with Cons.prems have "d \<in> set (update_first (\<lambda>d. dev_id d = i) f xs)" by auto
    with Cons.IH Cons.prems show ?thesis by simp
  qed
qed

lemma updateMarkers_set_proj:
  assumes "\<And>d x. f (location_update x d) = f d" "\<And>d x. f (insideGeofence_update x d) = f d"
  shows "f ` set (currentDevices (updateMarkers D s)) = f ` set (currentDevices s)"
  using arg_cong[OF updateMarkers_proj[of f D s, OF assms], of set] by (simp only: set_map)

lemma addToWhitelist_response_ok:
  assumes "response_ok status"
  defines "L \<equiv> \<lambda>form s. update_first (\<lambda>d. dev_id d = deviceId form)
                 (\<lambda>d. d\<lparr>whitelisted := True, dev_name := Some (deviceName form),
                        dev_type := Some (deviceType form)\<rparr>) (currentDevices s)"
  shows "set (deviceList (addToWhitelist_response D form (Response status (Json j)) s)) =
           (if showWhitelistedOnly s then {d \<in> set (L form s). whitelisted d} else set (L form s))"
    and "(\<lambda>d. (dev_id d, whitelisted d)) `
            set (currentDevices (addToWhitelist_response D form (Response status (Json j)) s)) =
         (\<lambda>d. (dev_id d, whitelisted d)) ` set (L form s)"
    and "alerts (addToWhitelist_response D form (Response status (Json j)) s) = alerts s"
proof -
  define s1 where "s1 = updateDeviceList (s\<lparr>currentDevices := L form s\<rparr>)"
  have r: "addToWhitelist_response D form (Response status (Json j)) s =
           (if mapInitialized s1 \<and> map_obj s1 \<noteq> None then updateMarkers D s1 else s1)"
    using assms(1) unfolding addToWhitelist_response_def s1_def L_def Let_def by simp
  have dl: "set (deviceList s1) =
           (if showWhitelistedOnly s then {d \<in> set (L form s). whitelisted d} else set (L form s))"
    by (simp add: s1_def updateDeviceList_def Let_def set_array_sort)
  have cd: "set (currentDevices s1) = set (L form s)"
    unfolding s1_def using updateDeviceList_mset[of "s\<lparr>currentDevices := L form s\<rparr>", THEN mset_eq_setD]
    by simp
  show "set (deviceList (addToWhitelist_response D form (Response status (Json j)) s)) =
           (if showWhitelistedOnly s then {d \<in> set (L form s). whitelisted d} else set (L form s))"
    unfolding r using dl by (simp del: not_None_eq)
  have "(\<lambda>d. (dev_id d, whitelisted d)) ` set (currentDevices (updateMarkers D s1)) =
        (\<lambda>d. (dev_id d, whitelisted d)) ` set (currentDevices s1)"
    by (rule updateMarkers_set_proj) simp_all
  then show "(\<lambda>d. (dev_id d, whitelisted d)) `
            set (currentDevices (addToWhitelist_response D form (Response status (Json j)) s)) =
         (\<lambda>d. (dev_id d, whitelisted d)) ` set (L form s)"
    unfolding r using cd by (simp del: not_None_eq)
  show "alerts (addToWhitelist_response D form (Response status (Json j)) s) = alerts s"
    unfolding r by (simp del: not_None_eq add: s1_def)
qed

lemma updateMarkers_device_other_key:
  "dev_id d \<noteq> i \<Longrightarrow> deviceMarkers (snd (updateMarkers_device D d s)) i = deviceMarkers s i"
  by (simp add: updateMarkers_device_def updateMarkerForDevice_def Let_def split: option.splits)

lemma updateMarkers_each_other_key:
  "i \<notin> dev_id ` set ds \<Longrightarrow> deviceMarkers (snd (updateMarkers_each D ds s)) i = deviceMarkers s i"
proof (induction ds arbitrary: s)
  case Nil
  show ?case by simp
next
  case (Cons d ds)
  obtain d' s' where 1: "updateMarkers_device D d s = (d', s')" by (cases "updateMarkers_device D d s")
  obtain ds' s'' where 2: "updateMarkers_each D ds s' = (ds', s'')" by (cases "updateMarkers_each D ds s'")
  have ne: "dev_id d \<noteq> i" using Cons.prems by auto
  have "deviceMarkers s'' i = deviceMarkers s' i" using Cons.IH[of s'] Cons.prems 2 by simp
  also have "\<dots> = deviceMarkers s i"
    using updateMarkers_device_other_key[OF ne, of D s] 1 by simp
  finally show ?case using 1 2 by simp
qed

lemma updateMarkers_each_map_obj:
  "map_obj (snd (updateMarkers_each D ds s)) = map_obj s"
  using arg_cong[OF updateMarkers_each_erase[where D=D and ds=ds and s=s and m=Map.empty], of map_obj]
  by simp

lemma updateMarkers_device_marker:
  assumes "map_obj s \<noteq> None" "location d = Some loc" "valid_coords (coords loc)"
    and "whitelisted d" "dev_id d \<notin> set object_prototype_names"
  shows "\<exists>m. deviceMarkers (snd (updateMarkers_device D d s)) (dev_id d) = Some m \<and>
             marker_color m = ''green'' \<and> marker_latlng m = coords loc"
  using assms
  by (auto simp del: not_None_eq simp: updateMarkers_device_def updateMarkerForDevice_def Let_def
      marker_for_def split: option.splits)

lemma updateMarkers_each_marker:
  assumes "distinct (map dev_id ds)" "map_obj s \<noteq> None" "d \<in> set ds"
    and "location d = Some loc" "valid_coords (coords loc)"
    and "whitelisted d" "dev_id d \<notin> set object_prototype_names"
  shows "\<exists>m. deviceMarkers (snd (updateMarkers_each D ds s)) (dev_id d) = Some m \<and>
             marker_color m = ''green'' \<and> marker_latlng m = coords loc"
  using assms(1,2,3)
proof (induction ds arbitrary: s)
  case Nil
  then show ?case by simp
next
  case (Cons x xs)
  obtain x' s' where 1: "updateMarkers_device D x s = (x', s')" by (cases "updateMarkers_device D x s")
  obtain xs' s'' where 2: "updateMarkers_each D xs s' = (xs', s'')" by (cases "updateMarkers_each D xs s'")
  have s'': "snd (updateMarkers_each D (x # xs) s) = s''" using 1 2 by simp
  have m': "map_obj s' \<noteq> None"
    using arg_cong[OF updateMarkers_device_erase[where D=D and d=x and s=s and m=Map.empty], of map_obj]
      1 Cons.prems(2) by (simp del: not_None_eq)
  show ?case
  proof (cases "d = x")
    case True
    have "dev_id d \<notin> dev_id ` set xs" using Cons.prems(1) True by simp
    then have "deviceMarkers s'' (dev_id d) = deviceMarkers s' (dev_id d)"
      using updateMarkers_each_other_key[of "dev_id d" xs D s'] 2 by simp
    moreover have "\<exists>m. deviceMarkers s' (dev_id d) = Some m \<and>
             marker_color m = ''green'' \<and> marker_latlng m = coords loc"
      using updateMarkers_device_marker[OF Cons.prems(2) assms(4,5,6,7), of D] 1 True by simp
    ultimately show ?thesis unfolding s'' by simp
  next
    case False
    then have "d \<in> set xs" using Cons.prems(3) by simp
    moreover have "distinct (map dev_id xs)" using Cons.prems(1) by simp
    ultimately show ?thesis unfolding s'' using Cons.IH[OF _ m'] 2 by simp
  qed
qed

lemma updateMarkers_marker:
  assumes "mapInitialized s" "map_obj s \<noteq> None" "distinct (map dev_id (currentDevices s))"
    and "d \<in> set (currentDevices s)" "location d = Some loc" "valid_coords (coords loc)"
    and "whitelisted d" "dev_id d \<notin> set object_prototype_names"
  shows "\<exists>m. deviceMarkers (updateMarkers D s) (dev_id d) = Some m \<and>
             marker_color m = ''green'' \<and> marker_latlng m = coords loc"
proof -
  obtain ds s' where 1: "updateMarkers_each D (currentDevices s) s = (ds, s')"
    by (cases "updateMarkers_each D (currentDevices s) s")
  have "map dev_id ds = map dev_id (currentDevices s)"
    using updateMarkers_each_proj[of dev_id D "currentDevices s" s] 1 by simp
  then have "set (map dev_id ds) = set (map dev_id (currentDevices s))" by (simp only:)
  then have ids: "dev_id d \<in> dev_id ` set ds" using assms(4) by (simp only: set_map) simp
  have um: "deviceMarkers (updateMarkers D s) = deviceMarkers s' |` (dev_id ` set ds)"
    using assms(1,2) 1 by (simp del: not_None_eq add: updateMarkers_def)
  have "\<exists>m. deviceMarkers s' (dev_id d) = Some m \<and>
             marker_color m = ''green'' \<and> marker_latlng m = coords loc"
    using updateMarkers_each_marker[OF assms(3,2,4,5,6,7,8), of D] 1 by simp
  then show ?thesis unfolding um using ids by (simp add: restrict_map_def)
qed

text \<open>
  C8. When the POST of \<open>addToWhitelist\<close> has succeeded (\<open>response.ok\<close>, JSON body), the
  continuation stamps the device and redraws: if the id is in \<open>currentDevices\<close>, the list
  drawn by that same continuation shows a device of that id as whitelisted; with
  pairwise distinct ids every device of that id, in the list drawn and in
  \<open>currentDevices\<close>, is whitelisted. With a non-empty id that is in \<open>currentDevices\<close> the
  handler reaches this continuation. The markers are redrawn by the same continuation:
  with the map initialised and pairwise distinct ids, a device of that id whose location
  has coordinates in range ends with a marker at its location in the colour of a
  whitelisted device (green; the popup is built from the same flag), provided the id is
  not the name of an inherited property, for which no marker is ever made. A device
  without a location in range is passed over by \<open>updateMarkers\<close>: no marker is drawn or
  redrawn for it.
\<close>

theorem addToWhitelist_view:
  assumes "response_ok status"
  shows "(deviceId form \<in> dev_id ` set (currentDevices s) \<longrightarrow>
            (\<exists>d \<in> set (deviceList (addToWhitelist_response D form (Response status (Json j)) s)).
                dev_id d = deviceId form \<and> whitelisted d)) \<and>
         (distinct (map dev_id (currentDevices s)) \<longrightarrow>
            (\<forall>d \<in> set (deviceList (addToWhitelist_response D form (Response status (Json j)) s)).
                dev_id d = deviceId form \<longrightarrow> whitelisted d) \<and>
            (\<forall>d \<in> set (currentDevices (addToWhitelist_response D form (Response status (Json j)) s)).
                dev_id d = deviceId form \<longrightarrow> whitelisted d)) \<and>
         (deviceId form \<noteq> [] \<and> deviceId form \<in> dev_id ` set (currentDevices s) \<longrightarrow>
            addToWhitelist D form (Response status (Json j)) s =
            addToWhitelist_response D form (Response status (Json j)) s) \<and>
         (mapInitialized s \<and> map_obj s \<noteq> None \<and> distinct (map dev_id (currentDevices s)) \<and>
          deviceId form \<notin> set object_prototype_names \<longrightarrow>
            (\<forall>d \<in> set (currentDevices s). \<forall>loc.
                dev_id d = deviceId form \<and> location d = Some loc \<and> valid_coords (coords loc) \<longrightarrow>
                (\<exists>m. deviceMarkers (addToWhitelist_response D form (Response status (Json j)) s)
                        (deviceId form) = Some m \<and>
                     marker_color m = ''green'' \<and> marker_latlng m = coords loc)))"
proof -
  let ?f = "\<lambda>d. d\<lparr>whitelisted := True, dev_name := Some (deviceName form),
                        dev_type := Some (deviceType form)\<rparr>"
  let ?L = "update_first (\<lambda>d. dev_id d = deviceId form) ?f (currentDevices s)"
  let ?s' = "addToWhitelist_response D form (Response status (Json j)) s"
  note ok = addToWhitelist_response_ok[OF assms, of D form j s]
  have 1: "\<exists>d \<in> set (deviceList ?s'). dev_id d = deviceId form \<and> whitelisted d"
    if "deviceId form \<in> dev_id ` set (currentDevices s)"
  proof -
    from update_first_hit[OF that, of ?f] obtain x where
      x: "x \<in> set (currentDevices s)" "dev_id x = deviceId form" "?f x \<in> set ?L" by blast
    have "?f x \<in> set (deviceList ?s')" unfolding ok(1) using x(3) by simp
    moreover have "dev_id (?f x) = deviceId form" "whitelisted (?f x)" using x(2) by simp_all
    ultimately show ?thesis by blast
  qed
  have u: "whitelisted d" if "distinct (map dev_id (currentDevices s))" "d \<in> set ?L"
      "dev_id d = deviceId form" for d
  proof -
    have "\<exists>x. d = ?f x" by (rule update_first_unique[OF _ that]) simp
    then show ?thesis by auto
  qed
  have 2: "\<forall>d \<in> set (deviceList ?s'). dev_id d = deviceId form \<longrightarrow> whitelisted d"
    if "distinct (map dev_id (currentDevices s))"
    unfolding ok(1) using u[OF that] by (auto split: if_splits)
  have 3: "\<forall>d \<in> set (currentDevices ?s'). dev_id d = deviceId form \<longrightarrow> whitelisted d"
    if "distinct (map dev_id (currentDevices s))"
  proof (intro ballI impI)
    fix d assume d: "d \<in> set (currentDevices ?s')" "dev_id d = deviceId form"
    then have "(dev_id d, whitelisted d) \<in> (\<lambda>d. (dev_id d, whitelisted d)) ` set ?L"
      using ok(2) by blast
    then obtain d0 where "d0 \<in> set ?L" "dev_id d0 = dev_id d" "whitelisted d0 = whitelisted d"
      by auto
    with u[OF that, of d0] d(2) show "whitelisted d" by simp
  qed
  have 4: "addToWhitelist D form (Response status (Json j)) s = ?s'"
    if "deviceId form \<noteq> [] \<and> deviceId form \<in> dev_id ` set (currentDevices s)"
  proof -
    from that obtain x where "x \<in> set (currentDevices s)" "dev_id x = deviceId form" by auto
    then have "find (\<lambda>d. dev_id d = deviceId form) (currentDevices s) \<noteq> None"
      by (auto simp: find_None_iff)
    with that show ?thesis by (auto simp: addToWhitelist_def addToWhitelist_request_def)
  qed
  have 5: "\<exists>m. deviceMarkers ?s' (deviceId form) = Some m \<and>
             marker_color m = ''green'' \<and> marker_latlng m = coords loc"
    if m: "mapInitialized s" "map_obj s \<noteq> None" and dist: "distinct (map dev_id (currentDevices s))"
      and n: "deviceId form \<notin> set object_prototype_names"
      and d: "d \<in> set (currentDevices s)" "dev_id d = deviceId form" "location d = Some loc"
        "valid_coords (coords loc)"
    for d loc
  proof -
    define s1 where "s1 = updateDeviceList (s\<lparr>currentDevices := ?L\<rparr>)"
    have m1: "mapInitialized s1" "map_obj s1 \<noteq> None" using m by (simp_all add: s1_def)
    have r: "?s' = updateMarkers D s1"
      using assms m1 unfolding addToWhitelist_response_def s1_def Let_def
      by (simp del: not_None_eq)
    have ms: "mset (currentDevices s1) = mset ?L"
      unfolding s1_def by (simp only: updateDeviceList_mset) simp
    have "mset (map dev_id (currentDevices s1)) = mset (map dev_id ?L)"
      using ms by simp
    moreover have "map dev_id ?L = map dev_id (currentDevices s)"
      by (rule update_first_proj) simp
    ultimately have "mset (map dev_id (currentDevices s1)) = mset (map dev_id (currentDevices s))"
      by simp
    then have d1: "distinct (map dev_id (currentDevices s1))"
      using dist mset_eq_imp_distinct_iff by blast
    have "deviceId form \<in> dev_id ` set (currentDevices s)" using d(1,2) by force
    from update_first_hit[OF this, of ?f] obtain x where
      x: "x \<in> set (currentDevices s)" "dev_id x = deviceId form" "?f x \<in> set ?L" by blast
    have "x = d" using dist x(1,2) d(1,2) by (auto simp: distinct_map inj_on_def)
    then have fd: "?f d \<in> set (currentDevices s1)"
      using x(3) ms[THEN mset_eq_setD] by simp
    have "\<exists>m. deviceMarkers (updateMarkers D s1) (dev_id (?f d)) = Some m \<and>
             marker_color m = ''green'' \<and> marker_latlng m = coords loc"
      by (rule updateMarkers_marker[OF m1 d1 fd]) (simp_all add: d n)
    then show ?thesis unfolding r by (simp add: d(2))
  qed
  have mk: "mapInitialized s \<and> map_obj s \<noteq> None \<and> distinct (map dev_id (currentDevices s)) \<and>
          deviceId form \<notin> set object_prototype_names \<longrightarrow>
            (\<forall>d \<in> set (currentDevices s). \<forall>loc.
                dev_id d = deviceId form \<and> location d = Some loc \<and> valid_coords (coords loc) \<longrightarrow>
                (\<exists>m. deviceMarkers ?s' (deviceId form) = Some m \<and>
                     marker_color m = ''green'' \<and> marker_latlng m = coords loc))"
    using 5 by blast
  from 1 2 3 4 have first: "(deviceId form \<in> dev_id ` set (currentDevices s) \<longrightarrow>
            (\<exists>d \<in> set (deviceList ?s'). dev_id d = deviceId form \<and> whitelisted d)) \<and>
         (distinct (map dev_id (currentDevices s)) \<longrightarrow>
            (\<forall>d \<in> set (deviceList ?s'). dev_id d = deviceId form \<longrightarrow> whitelisted d) \<and>
            (\<forall>d \<in> set (currentDevices ?s'). dev_id d = deviceId form \<longrightarrow> whitelisted d)) \<and>
         (deviceId form \<noteq> [] \<and> deviceId form \<in> dev_id ` set (currentDevices s) \<longrightarrow>
            addToWhitelist D form (Response status (Json j)) s = ?s')"
    by blast
  show ?thesis
    apply (rule conjI)
     apply (rule first[THEN conjunct1])
    apply (rule conjI)
     apply (rule first[THEN conjunct2, THEN conjunct1])
    apply (rule conjI)
     apply (rule first[THEN conjunct2, THEN conjunct2])
    apply (rule mk)
    done
qed

lemma ab_state_eval:
  "map dev_id (currentDevices ab_state) = [''a'', ''b'']"
  "alerts ab_state = []"
  by (simp_all add: ab_state_def eval_defs)

lemma one_device_state_location:
  "map (\<lambda>d. (dev_id d, location d)) (currentDevices one_device_state) =
     [(''c'', Some (LatLng 37.78 (-122.41)))]"
  by (simp del: not_None_eq add: one_device_state_def eval_defs marker_defs)

text \<open>
  With the map initialised and one located device \<open>c\<close>, shown by a blue marker: after
  the add has succeeded the list shows \<open>c\<close> as whitelisted and its marker is green.
\<close>

theorem addToWhitelist_view_witness:
  "response_ok 200 \<and>
   deviceId located_form \<noteq> [] \<and>
   deviceId located_form \<in> dev_id ` set (currentDevices one_device_state) \<and>
   distinct (map dev_id (currentDevices one_device_state)) \<and>
   mapInitialized one_device_state \<and> map_obj one_device_state \<noteq> None \<and>
   deviceId located_form \<notin> set object_prototype_names \<and>
   valid_coords (coords (LatLng 37.78 (-122.41))) \<and>
   deviceMarkers one_device_state ''c'' =
     Some \<lparr>marker_latlng = (37.78, -122.41), marker_color = ''blue'', marker_opacity = 1\<rparr> \<and>
   (\<exists>d \<in> set (deviceList (addToWhitelist_response flat_distance located_form
                    (Response 200 (Json None)) one_device_state)).
       dev_id d = ''c'' \<and> whitelisted d) \<and>
   (\<exists>m. deviceMarkers (addToWhitelist_response flat_distance located_form
                    (Response 200 (Json None)) one_device_state) ''c'' = Some m \<and>
        marker_color m = ''green'' \<and> marker_latlng m = (37.78, -122.41)) \<and>
   addToWhitelist flat_distance located_form (Response 200 (Json None)) one_device_state =
     addToWhitelist_response flat_distance located_form (Response 200 (Json None)) one_device_state"
proof -
  let ?s' = "addToWhitelist_response flat_distance located_form (Response 200 (Json None))
               one_device_state"
  have ok: "response_ok 200" by (simp add: response_ok_def)
  have i: "deviceId located_form = ''c''" by (simp add: located_form_def)
  have ne: "deviceId located_form \<noteq> []" by (simp add: located_form_def)
  have "dev_id ` set (currentDevices one_device_state) = set [''c'']"
    by (simp only: one_device_state_eval(1)[symmetric] set_map)
  then have p: "deviceId located_form \<in> dev_id ` set (currentDevices one_device_state)"
    by (simp add: i)
  have d: "distinct (map dev_id (currentDevices one_device_state))"
    by (simp add: one_device_state_eval)
  have mi: "mapInitialized one_device_state" by (rule one_device_state_eval(3))
  have mo: "map_obj one_device_state \<noteq> None"
    by (simp only: one_device_state_eval(4) option.distinct not_False_eq_True)
  have n: "deviceId located_form \<notin> set object_prototype_names"
    by (simp add: i object_prototype_names_def)
  have v: "valid_coords (coords (LatLng 37.78 (-122.41)))"
    by (simp add: valid_coords_def coords_def)
  from one_device_state_location obtain x where
    x: "currentDevices one_device_state = [x]" "dev_id x = ''c''"
       "location x = Some (LatLng 37.78 (-122.41))"
    by (auto simp: map_eq_Cons_conv)
  note th = addToWhitelist_view[OF ok, of located_form one_device_state flat_distance None]
  from th p have 1: "\<exists>d \<in> set (deviceList ?s'). dev_id d = deviceId located_form \<and> whitelisted d"
    by blast
  from th ne p have 2: "addToWhitelist flat_distance located_form (Response 200 (Json None))
      one_device_state = ?s'"
    by blast
  from th mi mo d n have "\<forall>d \<in> set (currentDevices one_device_state). \<forall>loc.
      dev_id d = deviceId located_form \<and> location d = Some loc \<and> valid_coords (coords loc) \<longrightarrow>
      (\<exists>m. deviceMarkers ?s' (deviceId located_form) = Some m \<and>
           marker_color m = ''green'' \<and> marker_latlng m = coords loc)"
    by blast
  then have "\<exists>m. deviceMarkers ?s' (deviceId located_form) = Some m \<and>
           marker_color m = ''green'' \<and> marker_latlng m = coords (LatLng 37.78 (-122.41))"
    using x v i by simp
  then have 3: "\<exists>m. deviceMarkers ?s' ''c'' = Some m \<and>
        marker_color m = ''green'' \<and> marker_latlng m = (37.78, -122.41)"
    unfolding i by (simp add: coords_def)
  from ok ne p d mi mo n v one_device_state_eval(2) 1[unfolded i] 3 2 show ?thesis
    by (intro conjI)
qed

section \<open>Removing from the whitelist\<close>

text \<open>
  C5, as the handler implements it. For a non-empty id, \<open>removeFromWhitelist\<close> reports
  success when the response is \<open>ok\<close> (status 200 to 299) with a JSON body. For any other
  status, 404 included, for a body that does not parse and for a failed fetch, the only
  effect is an alert that starts "Failed to remove device from whitelist: ": the failure
  is shown to the operator and the device records are left as they were.
\<close>

theorem removeFromWhitelist_outcome:
  assumes "deviceId form \<noteq> []"
  shows "(response_ok status \<longrightarrow>
            alerts (removeFromWhitelist D form (Response status (Json j)) s) =
              alerts s @ [''Device removed from whitelist successfully'']) \<and>
         (\<not> response_ok status \<longrightarrow>
            removeFromWhitelist D form (Response status b) s =
              s\<lparr>alerts := alerts s @
                   [''Failed to remove device from whitelist: '' @
                    error_message b ''Failed to remove device from whitelist'']\<rparr>) \<and>
         (response_ok status \<longrightarrow>
            removeFromWhitelist D form (Response status (NotJson msg)) s =
              s\<lparr>alerts := alerts s @ [''Failed to remove device from whitelist: '' @ msg]\<rparr>) \<and>
         removeFromWhitelist D form (NetworkError msg) s =
           s\<lparr>alerts := alerts s @ [''Failed to remove device from whitelist: '' @ msg]\<rparr>"
  using assms
  by (simp del: not_None_eq add: removeFromWhitelist_def show_alert_def Let_def)

theorem removeFromWhitelist_outcome_witness:
  "deviceId sample_form \<noteq> [] \<and> response_ok 200 \<and> \<not> response_ok 404 \<and>
   alerts (removeFromWhitelist flat_distance sample_form (Response 200 (Json None)) ab_state) =
     [''Device removed from whitelist successfully''] \<and>
   removeFromWhitelist flat_distance sample_form (Response 404 (Json None)) ab_state =
     ab_state\<lparr>alerts := [''Failed to remove device from whitelist: Failed to remove device from whitelist'']\<rparr>"
proof -
  have ne: "deviceId sample_form \<noteq> []" by (simp add: sample_form_def)
  have ok: "response_ok 200" "\<not> response_ok 404" by (simp_all add: response_ok_def)
  from removeFromWhitelist_outcome[OF ne, of 200 flat_distance None ab_state]
  have 1: "alerts (removeFromWhitelist flat_distance sample_form (Response 200 (Json None)) ab_state) =
     [''Device removed from whitelist successfully'']"
    using ok(1) by (simp add: ab_state_eval)
  from removeFromWhitelist_outcome[OF ne, of 404 flat_distance _ ab_state "Json None"]
  have 2: "removeFromWhitelist flat_distance sample_form (Response 404 (Json None)) ab_state =
     ab_state\<lparr>alerts := [''Failed to remove device from whitelist: Failed to remove device from whitelist'']\<rparr>"
    using ok(2) by (simp add: ab_state_eval error_message_def)
  from ne ok 1 2 show ?thesis by blast
qed

text \<open>
  The claim as stated fails: for an id that was never added, the documented answer of the
  endpoint is 404 with the detail "Device ... not found in whitelist", and the handler
  shows it to the operator as a failure.
\<close>

theorem remove_absent_counterexample:
  "alerts (removeFromWhitelist flat_distance absent_form
             (not_in_whitelist_response ''5213ec08'') initial_state) =
     [''Failed to remove device from whitelist: Device 5213ec08 not found in whitelist''] \<and>
   currentDevices (removeFromWhitelist flat_distance absent_form
             (not_in_whitelist_response ''5213ec08'') initial_state) = currentDevices initial_state"
  by (simp add: removeFromWhitelist_def not_in_whitelist_response_def absent_form_def
      response_ok_def error_message_def show_alert_def initial_state_def)

section \<open>The order of the device list\<close>

text \<open>
  C9 does not hold of the code for a power of exactly 0. The comparator reads
  \<open>(b.power || -100) - (a.power || -100)\<close>, and 0 is falsy: the device with power 0 is
  sorted as if its power were -100, behind an equally active device with power -50.
\<close>

theorem zero_power_sorted_last:
  "map (\<lambda>d. (dev_id d, dev_power d, isActive d))
     (deviceList (onmessage flat_distance 1000 (snapshot [dev_zero, dev_weak]) initial_state)) =
     [(''weak'', Some (-50), True), (''zero'', Some 0, True)]"
  by (simp add: eval_defs dev_zero_def dev_weak_def)

section \<open>Further properties of the handlers\<close>

lemma compare_devices_le: "compare_devices a b \<le> 0 \<longleftrightarrow> sorts_before a b"
  by (auto simp: compare_devices_def sorts_before_def)

lemma sorts_before_total: "sorts_before a b \<or> sorts_before b a"
  by (auto simp: sorts_before_def)

lemma sorts_before_trans: "sorts_before a b \<Longrightarrow> sorts_before b c \<Longrightarrow> sorts_before a c"
  by (auto simp: sorts_before_def)

lemma set_insert_sorted: "set (insert_sorted cmp x xs) = insert x (set xs)"
  by (induction xs) auto

lemma sorted_insert_sorted:
  "sorted_wrt sorts_before xs \<Longrightarrow> sorted_wrt sorts_before (insert_sorted compare_devices x xs)"
proof (induction xs)
  case Nil
  show ?case by simp
next
  case (Cons y ys)
  show ?case
  proof (cases "compare_devices x y \<le> 0")
    case True
    then have xy: "sorts_before x y" by (simp add: compare_devices_le)
    have "\<forall>z \<in> set ys. sorts_before x z"
      using Cons.prems xy sorts_before_trans by auto
    with True xy Cons.prems show ?thesis by simp
  next
    case False
    then have yx: "sorts_before y x"
      using sorts_before_total[of x y] by (simp add: compare_devices_le)
    have "sorted_wrt sorts_before (insert_sorted compare_devices x ys)"
      using Cons.IH Cons.prems by simp
    moreover have "\<forall>z \<in> set (insert_sorted compare_devices x ys). sorts_before y z"
      using Cons.prems yx by (simp add: set_insert_sorted)
    ultimately show ?thesis using False by simp
  qed
qed

lemma sorted_array_sort: "sorted_wrt sorts_before (array_sort compare_devices xs)"
  by (induction xs) (simp_all add: sorted_insert_sorted)

text \<open>
  The list drawn by \<open>updateDeviceList\<close> is a permutation of the devices it was given
  (the whitelisted ones when the filter is on), ordered by the comparator: an active
  device never stands behind an inactive one, and among devices of equal activity the
  value \<open>power || -100\<close> never increases. The records themselves are not changed by the
  sort, so an absent power stays absent.
\<close>

theorem deviceList_sorted:
  "sorted_wrt sorts_before (deviceList (updateDeviceList s)) \<and>
   mset (deviceList (updateDeviceList s)) =
     mset (if showWhitelistedOnly s then filter whitelisted (currentDevices s)
           else currentDevices s)"
  by (simp add: updateDeviceList_def Let_def sorted_array_sort mset_array_sort)

lemma div_1000_le_30: "((x::int) div 1000 \<le> 30) = (x < 31000)"
proof -
  have "x = 1000 * (x div 1000) + x mod 1000" by simp
  moreover have "0 \<le> x mod 1000" "x mod 1000 < 1000" by simp_all
  ultimately show ?thesis by linarith
qed

text \<open>
  The threshold of \<open>processDeviceData\<close>: \<open>Math.floor((now - lastSeen) / 1000) <= 30\<close>
  holds exactly when \<open>now - lastSeen < 31000\<close>, one second more than the 30000
  milliseconds of the snapshot handler.
\<close>

theorem processDevice_isActive:
  assumes "last_seen d = Some t"
  shows "isActive (fst (snd (processDevice D now d s))) = (now - t < 31000)"
proof -
  have "isActive (fst (snd (processDevice D now d s))) = ((now - t) div 1000 \<le> 30)"
    using assms by (simp add: processDevice_def Let_def split: option.splits)
  also have "\<dots> = (now - t < 31000)" by (rule div_1000_le_30)
  finally show ?thesis .
qed

theorem processDevice_isActive_witness:
  "last_seen (sample_device ''a'' (Some 0) None (Some (-40))) = Some 0 \<and>
   isActive (fst (snd (processDevice flat_distance 30500
      (sample_device ''a'' (Some 0) None (Some (-40))) initial_state))) = True \<and>
   \<not> ((30500::int) - 0 < 30000)"
proof -
  have h: "last_seen (sample_device ''a'' (Some 0) None (Some (-40))) = Some 0"
    by (simp add: sample_device_def)
  from processDevice_isActive[OF h, of flat_distance 30500 initial_state] h
  show ?thesis by simp
qed

text \<open>
  Disabling an enabled geofence changes \<open>geofenceEnabled\<close> and nothing else: every
  \<open>insideGeofence\<close> flag, the markers and the list on screen stay as they were.
\<close>

theorem toggleGeofence_disable:
  assumes "geofenceCircle s \<noteq> None" "geofenceEnabled s"
  shows "toggleGeofence D s = s\<lparr>geofenceEnabled := False\<rparr>"
  using assms by (simp add: toggleGeofence_def checkDevicesAgainstGeofence_off)

theorem toggleGeofence_disable_witness:
  "geofenceCircle fenced_state \<noteq> None \<and> geofenceEnabled fenced_state \<and>
   toggleGeofence earth_distance fenced_state = fenced_state\<lparr>geofenceEnabled := False\<rparr>"
proof -
  have 1: "geofenceCircle fenced_state \<noteq> None"
    by (simp only: fenced_state_eval(2) option.distinct not_False_eq_True)
  have 2: "geofenceEnabled fenced_state" by (rule fenced_state_eval(3))
  from toggleGeofence_disable[OF 1 2, of earth_distance] 1 2 show ?thesis by blast
qed

text \<open>
  With the map, the station marker and \<open>mapInitialized\<close> in place, the handler calls
  \<open>map.setView\<close> exactly when the distance from the new fix to itself exceeds 100: the
  previous fix plays no part.
\<close>

theorem station_recentre_condition:
  assumes "map_obj s \<noteq> None" "userMarker s \<noteq> None" "mapInitialized s"
  shows "fst (station_update D st s) =
           (D (latitude st, longitude st) (latitude st, longitude st) > 100)"
  using assms by (simp del: not_None_eq add: station_update_def getDistance_def Let_def)

theorem station_recentre_condition_witness:
  "map_obj map_ready_state \<noteq> None \<and> userMarker map_ready_state \<noteq> None \<and>
   mapInitialized map_ready_state \<and>
   fst (station_update earth_distance \<lparr>latitude = 0, longitude = 0.01\<rparr> map_ready_state) =
     (earth_distance (0, 0.01) (0, 0.01) > 100) \<and>
   \<not> earth_distance (0, 0.01) (0, 0.01) > 100"
proof -
  have 1: "map_obj map_ready_state \<noteq> None" "userMarker map_ready_state \<noteq> None"
      "mapInitialized map_ready_state"
    by (simp_all del: not_None_eq add: map_ready_state_def initializeMap_callback_def)
  have 2: "\<not> earth_distance (0, 0.01) (0, 0.01) > 100" by (simp add: earth_distance_self)
  from station_recentre_condition[OF 1, of earth_distance "\<lparr>latitude = 0, longitude = 0.01\<rparr>"]
  have "fst (station_update earth_distance \<lparr>latitude = 0, longitude = 0.01\<rparr> map_ready_state) =
     (earth_distance (0, 0.01) (0, 0.01) > 100)" by simp
  with 1 2 show ?thesis by blast
qed

text \<open>
  \<open>processDeviceData\<close> is declared but called by no handler and by neither page. Unlike
  the two loops that run, it reads \<open>device.location.latitude\<close> without testing
  \<open>device.location\<close>: with a circle and a map, it throws on any device without location.
\<close>

theorem processDevice_missing_location:
  assumes "geofenceCircle s \<noteq> None" "map_obj s \<noteq> None" "location d = None"
  shows "fst (processDevice D now d s) = Some TypeError"
  using assms by (auto simp del: not_None_eq simp: processDevice_def Let_def split: option.splits)

theorem processDevice_missing_location_witness:
  "geofenceCircle fenced_state \<noteq> None \<and> map_obj fenced_state \<noteq> None \<and> location dev_a = None \<and>
   fst (processDevice earth_distance 21000 dev_a fenced_state) = Some TypeError"
proof -
  have 1: "geofenceCircle fenced_state \<noteq> None"
    by (simp only: fenced_state_eval(2) option.distinct not_False_eq_True)
  have 2: "map_obj fenced_state \<noteq> None"
    by (simp only: fenced_state_map(2) option.distinct not_False_eq_True)
  have 3: "location dev_a = None" by (simp add: dev_a_def sample_device_def)
  from processDevice_missing_location[OF 1 2 3, of earth_distance 21000] 1 2 3
  show ?thesis by blast
qed

lemma updateMarkerForDevice_status [simp]:
  "deviceStatus_active (updateMarkerForDevice d s) = deviceStatus_active s"
  "deviceStatus_inactive (updateMarkerForDevice d s) = deviceStatus_inactive s"
  by (simp_all add: updateMarkerForDevice_def split: option.splits)

text \<open>
  One round of \<open>processDeviceData\<close> leaves the id of its device, when it is not
  \<open>__proto__\<close>, in exactly one of the two \<open>deviceStatus\<close> objects, and keeps their key sets
  disjoint if they were.
\<close>

theorem processDevice_status:
  "(dev_id d \<noteq> ''__proto__'' \<longrightarrow>
     (dev_id d \<in> dom (deviceStatus_active (snd (snd (processDevice D now d s))))) \<noteq>
     (dev_id d \<in> dom (deviceStatus_inactive (snd (snd (processDevice D now d s)))))) \<and>
   (dom (deviceStatus_active s) \<inter> dom (deviceStatus_inactive s) = {} \<longrightarrow>
    dom (deviceStatus_active (snd (snd (processDevice D now d s)))) \<inter>
      dom (deviceStatus_inactive (snd (snd (processDevice D now d s)))) = {})"
  by (auto simp del: not_None_eq simp: processDevice_def Let_def split: option.splits if_splits)

theorem processDevice_status_witness:
  "dev_id dev_b \<noteq> ''__proto__'' \<and>
   dom (deviceStatus_active initial_state) \<inter> dom (deviceStatus_inactive initial_state) = {} \<and>
   (dev_id dev_b \<in> dom (deviceStatus_active (snd (snd (processDevice flat_distance 41000 dev_b initial_state))))) \<noteq>
     (dev_id dev_b \<in> dom (deviceStatus_inactive (snd (snd (processDevice flat_distance 41000 dev_b initial_state))))) \<and>
   dom (deviceStatus_active (snd (snd (processDevice flat_distance 41000 dev_b initial_state)))) \<inter>
      dom (deviceStatus_inactive (snd (snd (processDevice flat_distance 41000 dev_b initial_state)))) = {}"
proof -
  have 1: "dom (deviceStatus_active initial_state) \<inter> dom (deviceStatus_inactive initial_state) = {}"
    by (simp add: initial_state_def)
  have 2: "dev_id dev_b \<noteq> ''__proto__''" by (simp add: dev_b_def sample_device_def)
  from processDevice_status[of dev_b flat_distance 41000 initial_state] 1 2 show ?thesis by blast
qed

text \<open>
  A device whose id is the name of an inherited property and not yet a key of
  \<open>deviceMarkers\<close> never gets a marker: \<open>updateMarkerForDevice\<close> leaves the state as it is.
\<close>

theorem inherited_name_no_marker:
  assumes "dev_id d \<in> set object_prototype_names" "deviceMarkers s (dev_id d) = None"
  shows "updateMarkerForDevice d s = s"
  using assms by (simp add: updateMarkerForDevice_def split: option.splits)

theorem inherited_name_no_marker_witness:
  "dev_id (sample_device ''constructor'' (Some 500) (Some (LatitudeLongitude 37.78 (-122.41))) None)
     \<in> set object_prototype_names \<and>
   deviceMarkers map_ready_state
     (dev_id (sample_device ''constructor'' (Some 500) (Some (LatitudeLongitude 37.78 (-122.41))) None))
     = None \<and>
   updateMarkerForDevice
     (sample_device ''constructor'' (Some 500) (Some (LatitudeLongitude 37.78 (-122.41))) None)
     map_ready_state = map_ready_state"
proof -
  let ?d = "sample_device ''constructor'' (Some 500) (Some (LatitudeLongitude 37.78 (-122.41))) None"
  have 1: "dev_id ?d \<in> set object_prototype_names"
    by (simp add: sample_device_def object_prototype_names_def)
  have 2: "deviceMarkers map_ready_state (dev_id ?d) = None"
    by (simp add: map_ready_state_def initializeMap_callback_def initial_state_def)
  from inherited_name_no_marker[OF 1 2] 1 2 show ?thesis by (intro conjI)
qed

lemma updateMarkers_each_skipped_key:
  "\<forall>x \<in> set ds. dev_id x = i \<longrightarrow> location x = None \<Longrightarrow>
   deviceMarkers (snd (updateMarkers_each D ds s)) i = deviceMarkers s i"
proof (induction ds arbitrary: s)
  case Nil
  show ?case by simp
next
  case (Cons d ds)
  obtain d' s' where 1: "updateMarkers_device D d s = (d', s')" by (cases "updateMarkers_device D d s")
  obtain ds' s'' where 2: "updateMarkers_each D ds s' = (ds', s'')" by (cases "updateMarkers_each D ds s'")
  have "deviceMarkers s'' i = deviceMarkers s' i" using Cons.IH[of s'] Cons.prems 2 by simp
  also have "\<dots> = deviceMarkers s i"
  proof (cases "dev_id d = i")
    case True
    then have "location d = None" using Cons.prems by simp
    then show ?thesis using updateMarkers_device_no_location(1)[of d D s] 1 by simp
  next
    case False
    then show ?thesis using updateMarkers_device_other_key[of d i D s] 1 by simp
  qed
  finally show ?case using 1 2 by simp
qed

text \<open>
  \<open>updateMarkers\<close> does not touch the marker of a device that has no location: a marker
  made for the id while its record had a location stays as it was, whatever has changed
  on the record since.
\<close>

theorem no_location_marker_kept:
  assumes "d \<in> set (currentDevices s)"
    and "\<forall>x \<in> set (currentDevices s). dev_id x = dev_id d \<longrightarrow> location x = None"
  shows "deviceMarkers (updateMarkers D s) (dev_id d) = deviceMarkers s (dev_id d)"
proof (cases "map_obj s = None \<or> \<not> mapInitialized s")
  case True
  then show ?thesis by (simp add: updateMarkers_def)
next
  case False
  obtain ds s' where 1: "updateMarkers_each D (currentDevices s) s = (ds, s')"
    by (cases "updateMarkers_each D (currentDevices s) s")
  have "map dev_id ds = map dev_id (currentDevices s)"
    using updateMarkers_each_proj[of dev_id D "currentDevices s" s] 1 by simp
  then have "set (map dev_id ds) = set (map dev_id (currentDevices s))" by (simp only:)
  then have ids: "dev_id d \<in> dev_id ` set ds" using assms(1) by (simp only: set_map) simp
  have "deviceMarkers s' (dev_id d) = deviceMarkers s (dev_id d)"
    using updateMarkers_each_skipped_key[OF assms(2), of D s] 1 by simp
  with False 1 ids show ?thesis by (simp del: not_None_eq add: updateMarkers_def restrict_map_def)
qed

theorem no_location_marker_kept_witness:
  "dev_c \<in> set (currentDevices (one_device_state\<lparr>currentDevices := [dev_c]\<rparr>)) \<and>
   location dev_c = None \<and>
   deviceMarkers (updateMarkers flat_distance (one_device_state\<lparr>currentDevices := [dev_c]\<rparr>)) ''c'' =
     Some \<lparr>marker_latlng = (37.78, -122.41), marker_color = ''blue'', marker_opacity = 1\<rparr>"
proof -
  let ?s = "one_device_state\<lparr>currentDevices := [dev_c]\<rparr>"
  have l: "location dev_c = None" and i: "dev_id dev_c = ''c''"
    by (simp_all add: dev_c_def sample_device_def)
  have 1: "dev_c \<in> set (currentDevices ?s)" by simp
  have 2: "\<forall>x \<in> set (currentDevices ?s). dev_id x = dev_id dev_c \<longrightarrow> location x = None"
    using l by simp
  from no_location_marker_kept[OF 1 2, of flat_distance]
  have "deviceMarkers (updateMarkers flat_distance ?s) ''c'' = deviceMarkers ?s ''c''"
    unfolding i .
  then have "deviceMarkers (updateMarkers flat_distance ?s) ''c'' =
     Some \<lparr>marker_latlng = (37.78, -122.41), marker_color = ''blue'', marker_opacity = 1\<rparr>"
    using one_device_state_eval(2) by simp
  with 1 l show ?thesis by (intro conjI)
qed

end
